theory Spec2Isabelle
  imports Main "HOL-Library.Sublist"
begin

section \<open>Python strings\<close>

text \<open>
  A Python \<open>str\<close> is a sequence of Unicode code points.  It is modelled as a list of
  code points (natural numbers); an ASCII literal of the source is written
  \<open>str ''...''\<close>.
\<close>

type_synonym pystr = "nat list"

definition str :: "string \<Rightarrow> pystr" where
  "str s = map of_char s"

text \<open>
  \<open>str.isspace\<close> for one code point: the characters that \<open>str.strip()\<close> without
  argument removes.
\<close>

definition is_space :: "nat \<Rightarrow> bool" where
  "is_space c \<longleftrightarrow>
     (9 \<le> c \<and> c \<le> 13) \<or> (28 \<le> c \<and> c \<le> 32) \<or> c = 133 \<or> c = 160 \<or> c = 5760 \<or>
     (8192 \<le> c \<and> c \<le> 8202) \<or> c = 8232 \<or> c = 8233 \<or> c = 8239 \<or> c = 8287 \<or> c = 12288"

definition lstrip :: "pystr \<Rightarrow> pystr" where
  "lstrip s = dropWhile is_space s"

definition rstrip :: "pystr \<Rightarrow> pystr" where
  "rstrip s = rev (dropWhile is_space (rev s))"

definition strip :: "pystr \<Rightarrow> pystr" where
  "strip s = rstrip (lstrip s)"

definition startswith :: "pystr \<Rightarrow> pystr \<Rightarrow> bool" where
  "startswith s p = prefix p s"

text \<open>The operator \<open>p in s\<close> on strings: \<open>p\<close> occurs in \<open>s\<close> as a contiguous block.\<close>

fun str_in :: "pystr \<Rightarrow> pystr \<Rightarrow> bool" where
  "str_in p [] = (p = [])"
| "str_in p (c # cs) = (prefix p (c # cs) \<or> str_in p cs)"

text \<open>
  \<open>s.replace(old, new)\<close>: every occurrence of \<open>old\<close>, found from left to right
  without overlap, is replaced.  With an empty \<open>old\<close> Python puts \<open>new\<close> before
  every character and at the end.
\<close>

function replace_scan :: "pystr \<Rightarrow> pystr \<Rightarrow> pystr \<Rightarrow> pystr" where
  "replace_scan old new [] = []"
| "replace_scan old new (c # cs) =
     (if old \<noteq> [] \<and> prefix old (c # cs)
      then new @ replace_scan old new (drop (length old) (c # cs))
      else c # replace_scan old new cs)"
  by pat_completeness auto
termination
  by (relation "measure (\<lambda>(old, new, s). length s)") (auto simp: neq_Nil_conv)

definition replace :: "pystr \<Rightarrow> pystr \<Rightarrow> pystr \<Rightarrow> pystr" where
  "replace s old new =
     (if old = [] then new @ concat (map (\<lambda>c. c # new) s) else replace_scan old new s)"

text \<open>\<open>sep.join(xs)\<close>.\<close>

fun join :: "pystr \<Rightarrow> pystr list \<Rightarrow> pystr" where
  "join sep [] = []"
| "join sep [x] = x"
| "join sep (x # y # ys) = x @ sep @ join sep (y # ys)"

text \<open>
  The number of positions of \<open>s\<close> at which \<open>p\<close> occurs; used to say that a tag
  occurs exactly once in a document.
\<close>

fun occurrences :: "pystr \<Rightarrow> pystr \<Rightarrow> nat" where
  "occurrences p [] = (if p = [] then 1 else 0)"
| "occurrences p (c # cs) = (if prefix p (c # cs) then 1 else 0) + occurrences p cs"

section \<open>Values, exceptions and the world outside the program\<close>

text \<open>
  The value \<open>json.loads\<close> returns, which is also the type of the dictionaries the
  program builds itself.  A dictionary is an association list with distinct keys;
  \<open>JFloat m e\<close> is the finite float \<open>m * 2 ^ e\<close>.
\<close>

datatype json =
    JNull
  | JBool bool
  | JInt int
  | JFloat int int
  | JStr pystr
  | JList "json list"
  | JDict "(pystr \<times> json) list"

text \<open>
  Exceptions.  \<open>Exc m\<close> is an instance \<open>e\<close> of another subclass of \<open>Exception\<close>
  with \<open>str(e) = m\<close> (\<open>OSError\<close>, \<open>JSONDecodeError\<close>, ...); \<open>NonExc\<close> is an
  exception outside \<open>Exception\<close> (\<open>KeyboardInterrupt\<close>, \<open>SystemExit\<close>).
\<close>

datatype py_exn =
    TimeoutExpired
  | KeyError pystr
  | TypeError
  | AttributeError pystr
  | FileNotFoundError pystr
  | UnicodeDecodeError
  | Exc pystr
  | NonExc pystr

fun is_Exception :: "py_exn \<Rightarrow> bool" where
  "is_Exception (NonExc n) = False"
| "is_Exception e = True"

datatype 'a outcome = Returns 'a | Raises py_exn | Hangs

text \<open>
  A file holds bytes; \<open>Text s\<close> is a file that \<open>open(path, "r", encoding="utf-8").read()\<close>
  reads as \<open>s\<close>, \<open>NotUtf8\<close> one that it cannot decode.
\<close>

datatype fcontent = Text pystr | NotUtf8

type_synonym files = "pystr \<rightharpoonup> fcontent"

datatype fate = Exited | Killed

text \<open>
  What happens when a command line is started: it cannot be started, or a process runs,
  exits by itself after \<open>dur\<close> time units (never, when \<open>dur\<close> is \<open>None\<close>) with a return
  code and its two output streams, and leaves the files changed by \<open>eff\<close>, which
  depends on whether it ran to its end or was killed.
\<close>

datatype spawn =
    CannotSpawn py_exn
  | Runs (dur: "nat option") (rc: int) (out: pystr) (err: pystr) (eff: "fate \<Rightarrow> files \<Rightarrow> files")

record completed =
  returncode :: int
  stdout :: pystr
  stderr :: pystr

text \<open>What the Streamlit page shows, in order; \<open>Html v h\<close> is \<open>st.components.v1.html(v, height=h)\<close>.\<close>

datatype ui_event =
    Warning pystr
  | Info pystr
  | Error pystr
  | Success pystr
  | Markdown pystr
  | Header pystr
  | Html json nat

text \<open>The calls of the two audit functions, recorded when they are entered.\<close>

datatype call =
    AxeCall pystr "pystr list" pystr bool
  | CheckCall pystr

record world =
  files :: files
  shown :: "ui_event list"
  procs :: "(pystr list \<times> fate) list"
  calls :: "call list"

text \<open>
  The parts of the environment the source uses and does not define: the external
  program behind a command line, the name \<open>tempfile\<close> chooses, \<open>json.loads\<close>, the
  text \<open>str()\<close> gives for a value that is not a string and for an exception the
  interpreter raises, and the widgets for a successful payload (lines 105 to 154 of
  \<open>streamlit_a11y_app.py\<close>, which only read the payload and the filter widget): what
  they show and the exception that interrupts them, if any.
\<close>

record env =
  node :: "pystr list \<Rightarrow> files \<Rightarrow> spawn"
  tmp_stem :: "files \<Rightarrow> py_exn + pystr"
  json_loads :: "pystr \<Rightarrow> py_exn + json"
  py_str :: "json \<Rightarrow> pystr"
  builtin_msg :: "py_exn \<Rightarrow> pystr"
  show_summary :: "json \<Rightarrow> pystr \<Rightarrow> ui_event list \<times> py_exn option"

definition exn_str :: "env \<Rightarrow> py_exn \<Rightarrow> pystr" where
  "exn_str E e = (case e of Exc m \<Rightarrow> m | KeyError k \<Rightarrow> str [CHR 0x27] @ k @ str [CHR 0x27]
                  | _ \<Rightarrow> builtin_msg E e)"

definition display :: "ui_event \<Rightarrow> world \<Rightarrow> world" where
  "display e w = w\<lparr>shown := shown w @ [e]\<rparr>"

text \<open>
  \<open>subprocess.run(cmd, capture_output=True, text=True, timeout=t)\<close>: the call blocks
  until the process exits; with a timeout, a process that has not exited after \<open>t\<close>
  time units is killed and \<open>TimeoutExpired\<close> is raised.
\<close>

definition subprocess_run ::
  "env \<Rightarrow> pystr list \<Rightarrow> nat option \<Rightarrow> world \<Rightarrow> completed outcome \<times> world" where
  "subprocess_run E cmd timeout w =
     (case node E cmd (files w) of
        CannotSpawn e \<Rightarrow> (Raises e, w)
      | Runs d r so se ef \<Rightarrow>
          (let exited = w\<lparr>files := ef Exited (files w), procs := procs w @ [(cmd, Exited)]\<rparr>;
               killed = w\<lparr>files := ef Killed (files w), procs := procs w @ [(cmd, Killed)]\<rparr>;
               done = \<lparr>returncode = r, stdout = so, stderr = se\<rparr>
           in case (d, timeout) of
                (Some n, None) \<Rightarrow> (Returns done, exited)
              | (Some n, Some t) \<Rightarrow> if n \<le> t then (Returns done, exited)
                                   else (Raises TimeoutExpired, killed)
              | (None, Some t) \<Rightarrow> (Raises TimeoutExpired, killed)
              | (None, None) \<Rightarrow> (Hangs, w)))"

text \<open>
  \<open>tempfile.NamedTemporaryFile(delete=False, suffix=".html").name\<close>: an empty file is
  created and stays; its name ends in the suffix.
\<close>

definition named_temporary_file :: "env \<Rightarrow> pystr \<Rightarrow> world \<Rightarrow> pystr outcome \<times> world" where
  "named_temporary_file E sfx w =
     (case tmp_stem E (files w) of
        Inl e \<Rightarrow> (Raises e, w)
      | Inr stem \<Rightarrow> (Returns (stem @ sfx), w\<lparr>files := (files w)(stem @ sfx \<mapsto> Text [])\<rparr>))"

definition read_text :: "pystr \<Rightarrow> world \<Rightarrow> pystr outcome" where
  "read_text path w =
     (case files w path of
        None \<Rightarrow> Raises (FileNotFoundError path)
      | Some NotUtf8 \<Rightarrow> Raises UnicodeDecodeError
      | Some (Text s) \<Rightarrow> Returns s)"

definition os_unlink :: "pystr \<Rightarrow> world \<Rightarrow> unit outcome \<times> world" where
  "os_unlink path w =
     (case files w path of
        None \<Rightarrow> (Raises (FileNotFoundError path), w)
      | Some c \<Rightarrow> (Returns (), w\<lparr>files := (files w)(path := None)\<rparr>))"

section \<open>File mode: \<open>accessibility_tester.py\<close>\<close>

subsection \<open>\<open>is_valid_url\<close>\<close>

text \<open>
  The pattern \<open>^https?://\<close> is a sequence of literal characters, one of them optional.
  \<open>re.match\<close> tries the pattern at the start of the string; an optional character is
  tried first as present, then as absent.
\<close>

datatype rx_item = Lit nat | Opt nat

fun rx_match :: "rx_item list \<Rightarrow> pystr \<Rightarrow> bool" where
  "rx_match [] s = True"
| "rx_match (Lit c # r) s = (case s of [] \<Rightarrow> False | x # xs \<Rightarrow> x = c \<and> rx_match r xs)"
| "rx_match (Opt c # r) s =
     ((case s of [] \<Rightarrow> False | x # xs \<Rightarrow> x = c \<and> rx_match r xs) \<or> rx_match r s)"

definition url_pattern :: "rx_item list" where
  "url_pattern = map Lit (str ''http'') @ [Opt (of_char CHR ''s'')] @ map Lit (str ''://'')"

definition is_valid_url :: "pystr \<Rightarrow> bool" where
  "is_valid_url u = rx_match url_pattern (strip u)"

subsection \<open>\<open>render_html\<close>\<close>

definition head_tag :: pystr where
  "head_tag = str ''<head>''"

definition csp_meta :: pystr where
  \<open>csp_meta = str ''<meta http-equiv="Content-Security-Policy" content="default-src * 'unsafe-inline' 'unsafe-eval' data: blob:;">''\<close>

definition add_doctype :: "pystr \<Rightarrow> pystr" where
  "add_doctype html =
     (if \<not> startswith (strip html) (str ''<!DOCTYPE'')
      then str ''<!DOCTYPE html>\<newline>'' @ html else html)"

definition add_charset :: "pystr \<Rightarrow> pystr" where
  \<open>add_charset html =
     (if \<not> str_in (str ''<meta charset='') html
      then replace html head_tag (str ''<head>\<newline>    <meta charset="UTF-8">'') else html)\<close>

definition add_viewport :: "pystr \<Rightarrow> pystr" where
  \<open>add_viewport html =
     (if \<not> str_in (str ''viewport'') html
      then replace html head_tag
             (str ''<head>\<newline>    <meta name="viewport" content="width=device-width, initial-scale=1.0">'')
      else html)\<close>

definition add_csp :: "pystr \<Rightarrow> pystr" where
  "add_csp html =
     (if \<not> str_in (str ''Content-Security-Policy'') html
      then replace html head_tag (str ''<head>\<newline>    '' @ csp_meta) else html)"

definition render_html :: "pystr \<Rightarrow> pystr" where
  "render_html html = add_csp (add_viewport (add_charset (add_doctype html)))"


text \<open>The document of the embedding scenario.\<close>

definition scenario_html :: pystr where
  "scenario_html = str ''<html><head></head><body>x</body></html>''"

subsection \<open>\<open>run_node_axe\<close>\<close>

definition run_node_axe ::
  "env \<Rightarrow> pystr \<Rightarrow> pystr list \<Rightarrow> pystr \<Rightarrow> bool \<Rightarrow> world \<Rightarrow> pystr outcome \<times> world" where
  "run_node_axe E url standards_list device_type keyboard_testing w0 =
     (let w = w0\<lparr>calls := calls w0 @ [AxeCall url standards_list device_type keyboard_testing]\<rparr>
      in case named_temporary_file E (str ''.html'') w of
           (Raises e, w1) \<Rightarrow> (Raises e, w1)
         | (Hangs, w1) \<Rightarrow> (Hangs, w1)
         | (Returns out_file, w1) \<Rightarrow>
             (let standards_str = join (str '','') standards_list;
                  keyboard_flag = (if keyboard_testing then str ''true'' else str ''false'');
                  cmd = [str ''node'', str ''a11y_audit.js'', url, standards_str, device_type,
                         out_file, keyboard_flag]
              in case subprocess_run E cmd None w1 of
                   (Raises e, w2) \<Rightarrow> (Raises e, w2)
                 | (Hangs, w2) \<Rightarrow> (Hangs, w2)
                 | (Returns result, w2) \<Rightarrow>
                     if returncode result \<noteq> 0
                     then (Returns (str ''<html><body><h1>Error running test</h1></body></html>''),
                           display (Error (str ''Error running accessibility test: '' @ stderr result)) w2)
                     else (case read_text out_file w2 of
                             Raises e \<Rightarrow> (Raises e, w2)
                           | Hangs \<Rightarrow> (Hangs, w2)
                           | Returns html \<Rightarrow>
                               (case os_unlink out_file w2 of
                                  (Raises e, w3) \<Rightarrow> (Raises e, w3)
                                | (Hangs, w3) \<Rightarrow> (Hangs, w3)
                                | (Returns u, w3) \<Rightarrow> (Returns html, w3)))))"

subsection \<open>The page script, from the collection of the standards on\<close>

text \<open>
  The values the widgets return in one run of the script.  The title, the
  instructions and the labels of the widgets are constant and not recorded.
\<close>

record ui_input =
  url_input :: pystr
  wcag2a :: bool
  wcag2aa :: bool
  best_practice :: bool
  aria :: bool
  keyboard_testing :: bool
  run_clicked :: bool

definition selected_standards :: "ui_input \<Rightarrow> pystr list" where
  "selected_standards i =
     (if wcag2a i then [str ''WCAG 2.0A''] else []) @
     (if wcag2aa i then [str ''WCAG 2.0AA''] else []) @
     (if best_practice i then [str ''Best-practice''] else []) @
     (if aria i then [str ''Aria''] else [])"

definition audit_done :: pystr where
  "audit_done = 9989 # str '' Accessibility audit completed! Hover over highlighted elements for detailed issue information.''"

definition page :: "env \<Rightarrow> ui_input \<Rightarrow> world \<Rightarrow> unit outcome \<times> world" where
  "page E i w0 =
     (let sel = selected_standards i;
          w1 = (if url_input i \<noteq> [] \<and> \<not> is_valid_url (url_input i)
                then display (Warning (str ''Please enter a valid URL starting with http:// or https://'')) w0
                else w0)
      in if url_input i \<noteq> [] \<and> is_valid_url (url_input i)
         then if sel = []
              then (Returns (), display (Info (str ''Please select at least one testing standard above to run the audit.'')) w1)
              else (let w2 = display (Info (str ''**Selected standards:** '' @ join (str '', '') sel)) w1
                    in if run_clicked i
                       then (case run_node_axe E (url_input i) sel (str ''desktop'') (keyboard_testing i) w2 of
                               (Raises e, w3) \<Rightarrow> (Raises e, w3)
                             | (Hangs, w3) \<Rightarrow> (Hangs, w3)
                             | (Returns desktop_html, w3) \<Rightarrow>
                                 (case run_node_axe E (url_input i) sel (str ''mobile'') (keyboard_testing i) w3 of
                                    (Raises e, w4) \<Rightarrow> (Raises e, w4)
                                  | (Hangs, w4) \<Rightarrow> (Hangs, w4)
                                  | (Returns mobile_html, w4) \<Rightarrow>
                                      (Returns (),
                                       display (Success audit_done)
                                        (display (Html (JStr (render_html mobile_html)) 700)
                                         (display (Markdown (str ''**Mobile View** - Hover over red-outlined elements to see accessibility issues''))
                                          (display (Html (JStr (render_html desktop_html)) 700)
                                           (display (Markdown (str ''**Desktop View** - Hover over red-outlined elements to see accessibility issues''))
                                            w4)))))))
                       else (Returns (), w2))
         else (Returns (), w1))"

section \<open>JSON mode: \<open>streamlit_a11y_app.py\<close>\<close>

subsection \<open>\<open>StreamlitA11yIntegration\<close>\<close>

record integration =
  node_script :: pystr

definition StreamlitA11yIntegration :: integration where
  "StreamlitA11yIntegration = \<lparr>node_script = str ''./streamlit_a11y_checker.js''\<rparr>"

text \<open>The three dictionaries \<open>run_accessibility_check\<close> builds.\<close>

definition failure_result :: "pystr \<Rightarrow> json" where
  \<open>failure_result se =
     JDict [(str ''success'', JBool False),
            (str ''error'', JStr (str ''Node.js script failed: '' @ se)),
            (str ''streamlitHtml'',
             JStr (str ''<div style="padding: 20px; color: red;">Error: '' @ se @ str ''</div>''))]\<close>

definition timeout_result :: json where
  \<open>timeout_result =
     JDict [(str ''success'', JBool False),
            (str ''error'', JStr (str ''Request timed out'')),
            (str ''streamlitHtml'',
             JStr (str ''<div style="padding: 20px; color: red;">Request timed out after 60 seconds</div>''))]\<close>

definition exception_result :: "pystr \<Rightarrow> json" where
  \<open>exception_result m =
     JDict [(str ''success'', JBool False),
            (str ''error'', JStr m),
            (str ''streamlitHtml'',
             JStr (str ''<div style="padding: 20px; color: red;">Error: '' @ m @ str ''</div>''))]\<close>

definition run_accessibility_check ::
  "integration \<Rightarrow> env \<Rightarrow> pystr \<Rightarrow> world \<Rightarrow> json outcome \<times> world" where
  "run_accessibility_check self E url w0 =
     (let w = w0\<lparr>calls := calls w0 @ [CheckCall url]\<rparr>;
          body =
            (case subprocess_run E [str ''node'', node_script self, url] (Some 60) w of
               (Raises e, w1) \<Rightarrow> (Raises e, w1)
             | (Hangs, w1) \<Rightarrow> (Hangs, w1)
             | (Returns result, w1) \<Rightarrow>
                 if returncode result = 0
                 then (case json_loads E (stdout result) of
                         Inl e \<Rightarrow> (Raises e, w1)
                       | Inr v \<Rightarrow> (Returns v, w1))
                 else (Returns (failure_result (stderr result)), w1))
      in case body of
           (Raises e, w1) \<Rightarrow>
             if e = TimeoutExpired then (Returns timeout_result, w1)
             else if is_Exception e then (Returns (exception_result (exn_str E e)), w1)
             else (Raises e, w1)
         | (Hangs, w1) \<Rightarrow> (Hangs, w1)
         | (Returns v, w1) \<Rightarrow> (Returns v, w1))"

subsection \<open>\<open>main\<close>\<close>

text \<open>
  \<open>st.session_state\<close>, which Streamlit keeps from one run of the script to the next:
  an attribute is absent (\<open>None\<close>) until the script assigns it.
\<close>

record session =
  run_test :: "bool option"
  test_url :: "pystr option"

text \<open>
  The values the widgets return in one run: the quick URL chosen (empty when none), the
  text typed into the URL field (\<open>None\<close> while it still holds its default), whether the
  button was pressed, and the filter chosen for the list of issues.
\<close>

record json_input =
  selected_quick_url :: pystr
  typed_url :: "pystr option"
  check_clicked :: bool
  filter_type :: pystr

definition quick_urls :: "(pystr \<times> pystr) list" where
  "quick_urls =
     [(str ''Canada.ca Homepage'', str ''https://www.canada.ca''),
      (str ''Test Canada'', str ''https://test.canada.ca''),
      (str ''GC Proto'', str ''https://gc-proto.github.io'')]"

text \<open>Truth value of a Python value in a condition.\<close>

fun truthy :: "json \<Rightarrow> bool" where
  "truthy JNull = False"
| "truthy (JBool b) = b"
| "truthy (JInt n) = (n \<noteq> 0)"
| "truthy (JFloat m e) = (m \<noteq> 0)"
| "truthy (JStr s) = (s \<noteq> [])"
| "truthy (JList xs) = (xs \<noteq> [])"
| "truthy (JDict kvs) = (kvs \<noteq> [])"

text \<open>\<open>v[k]\<close> with a string key: only a dictionary that has the key answers.\<close>

fun subscript :: "json \<Rightarrow> pystr \<Rightarrow> py_exn + json" where
  "subscript (JDict kvs) k = (case map_of kvs k of None \<Rightarrow> Inl (KeyError k) | Some v \<Rightarrow> Inr v)"
| "subscript v k = Inl TypeError"

text \<open>\<open>k in v\<close> for a dictionary \<open>v\<close>.\<close>

fun has_key :: "json \<Rightarrow> pystr \<Rightarrow> bool" where
  "has_key (JDict kvs) k = (map_of kvs k \<noteq> None)"
| "has_key v k = False"

text \<open>A value inside an f-string.\<close>

definition format :: "env \<Rightarrow> json \<Rightarrow> pystr" where
  "format E v = (case v of JStr s \<Rightarrow> s | _ \<Rightarrow> py_str E v)"

definition main :: "env \<Rightarrow> json_input \<Rightarrow> session \<Rightarrow> world \<Rightarrow> unit outcome \<times> session \<times> world" where
  "main E i s0 w0 =
     (let a11y_checker = StreamlitA11yIntegration
      in case (if selected_quick_url i \<noteq> []
               then (case map_of quick_urls (selected_quick_url i) of
                       None \<Rightarrow> Inl (KeyError (selected_quick_url i))
                     | Some u \<Rightarrow> Inr u)
               else Inr [])
         of Inl e \<Rightarrow> (Raises e, s0, w0)
          | Inr default_url \<Rightarrow>
         (let url = (case typed_url i of None \<Rightarrow> default_url | Some t \<Rightarrow> t);
              (s1, w1) =
                (if check_clicked i
                 then if url \<noteq> []
                      then (s0\<lparr>run_test := Some True, test_url := Some url\<rparr>, w0)
                      else (s0, display (Error (str ''Please enter a URL'')) w0)
                 else (s0, w0))
          in if run_test s1 = Some True
             then (case test_url s1 of
                     None \<Rightarrow> (Raises (AttributeError (str ''test_url'')), s1, w1)
                   | Some tu \<Rightarrow>
                       (let w2 = display (Header (str ''Testing: '' @ tu)) w1
                        in case run_accessibility_check a11y_checker E tu w2 of
                             (Raises e, w3) \<Rightarrow> (Raises e, s1, w3)
                           | (Hangs, w3) \<Rightarrow> (Hangs, s1, w3)
                           | (Returns result, w3) \<Rightarrow>
                               (case subscript result (str ''success'') of
                                  Inl e \<Rightarrow> (Raises e, s1, w3)
                                | Inr ok \<Rightarrow>
                                    if truthy ok
                                    then (case show_summary E result (filter_type i) of
                                            (evs, Some e) \<Rightarrow>
                                              (Raises e, s1, w3\<lparr>shown := shown w3 @ evs\<rparr>)
                                          | (evs, None) \<Rightarrow>
                                              (Returns (), s1\<lparr>run_test := Some False\<rparr>,
                                               w3\<lparr>shown := shown w3 @ evs\<rparr>))
                                    else (case subscript result (str ''error'') of
                                            Inl e \<Rightarrow> (Raises e, s1, w3)
                                          | Inr er \<Rightarrow>
                                              (let w4 = display (Error (str ''Failed to check accessibility: '' @ format E er)) w3;
                                                   w5 = (if has_key result (str ''streamlitHtml'')
                                                         then (case subscript result (str ''streamlitHtml'') of
                                                                 Inl e \<Rightarrow> w4
                                                               | Inr h \<Rightarrow> display (Html h 200) w4)
                                                         else w4)
                                               in (Returns (), s1\<lparr>run_test := Some False\<rparr>, w5))))))
             else (Returns (), s1,
                   display (Info (128072 # str '' Enter a URL in the sidebar and click 'Run Accessibility Check' to begin'')) w1)))"

text \<open>The session states the page can be in: the empty one, and what a run leaves behind.\<close>

inductive reachable :: "session \<Rightarrow> bool" where
  start: "reachable \<lparr>run_test = None, test_url = None\<rparr>"
| run: "reachable s \<Longrightarrow> main E i s w = (r, s', w') \<Longrightarrow> reachable s'"

text \<open>
  A session in which a requested test has a non-empty URL stored with it.
\<close>

definition armed :: "session \<Rightarrow> bool" where
  "armed s \<longleftrightarrow> (run_test s = Some True \<longrightarrow> (\<exists>u. test_url s = Some u \<and> u \<noteq> []))"

section \<open>Concrete environments\<close>

definition world0 :: world where
  "world0 = \<lparr>files = Map.empty, shown = [], procs = [], calls = []\<rparr>"

text \<open>
  The text of \<open>str(e)\<close> for the exceptions the interpreter and the operating system
  compose themselves, on the machine of the scenarios.
\<close>

definition cpython_msg :: "py_exn \<Rightarrow> pystr" where
  \<open>cpython_msg e =
     (case e of
        FileNotFoundError p \<Rightarrow>
          str ''[Errno 2] No such file or directory: '' @ str [CHR 0x27] @ p @ str [CHR 0x27]
      | UnicodeDecodeError \<Rightarrow>
          str [CHR 0x27] @ str ''utf-8'' @ str [CHR 0x27] @
          str '' codec can't decode byte 0xff in position 0: invalid start byte''
      | TypeError \<Rightarrow>
          str [CHR 0x27] @ str ''NoneType'' @ str [CHR 0x27] @ str '' object is not subscriptable''
      | AttributeError a \<Rightarrow> str ''st.session_state has no attribute "'' @ a @ str ''"''
      | TimeoutExpired \<Rightarrow> str ''Command timed out after 60 seconds''
      | KeyError k \<Rightarrow> str [CHR 0x27] @ k @ str [CHR 0x27]
      | Exc m \<Rightarrow> m
      | NonExc n \<Rightarrow> [])\<close>

text \<open>
  A machine for the scenarios.  The auditor runs one time unit, prints the given
  streams, exits with the given code and touches no file; \<open>tempfile\<close> takes the first
  of its candidate names that no file has yet, and gives up when both are taken;
  \<open>json.loads\<close> finds no JSON value in what it is given.
\<close>

definition auditor :: "int \<Rightarrow> pystr \<Rightarrow> pystr \<Rightarrow> env" where
  "auditor code so se =
     \<lparr>node = (\<lambda>cmd fs. Runs (Some 1) code so se (\<lambda>f x. x)),
      tmp_stem =
        (\<lambda>fs. if fs (str ''/tmp/tmpk3v9qz.html'') = None then Inr (str ''/tmp/tmpk3v9qz'')
              else if fs (str ''/tmp/tmpw7x2ma.html'') = None then Inr (str ''/tmp/tmpw7x2ma'')
              else Inl (Exc (str ''[Errno 17] No usable temporary file name found''))),
      json_loads = (\<lambda>s. Inl (Exc (str ''Expecting value: line 1 column 1 (char 0)''))),
      py_str = (\<lambda>v. str ''None''),
      builtin_msg = cpython_msg,
      show_summary = (\<lambda>v f. ([], None))\<rparr>"

text \<open>\<open>json.loads\<close> on the one document of the scenario.\<close>

definition boom_document :: pystr where
  \<open>boom_document = str ''{"success": false, "error": "boom"}''\<close>

definition boom_payload :: json where
  "boom_payload = JDict [(str ''success'', JBool False), (str ''error'', JStr (str ''boom''))]"

definition boom_env :: env where
  "boom_env = (auditor 0 boom_document [])
     \<lparr>json_loads := (\<lambda>s. if s = boom_document then Inr boom_payload
                          else Inl (Exc (str ''Expecting value: line 1 column 1 (char 0)'')))\<rparr>"

text \<open>An auditor that never exits, and a machine without \<open>node\<close>.\<close>

definition stuck_env :: env where
  "stuck_env = (auditor 0 [] [])\<lparr>node := (\<lambda>cmd fs. Runs None 0 [] [] (\<lambda>f x. x))\<rparr>"


text \<open>Widget values for one run of each page.\<close>

definition one_standard :: ui_input where
  "one_standard =
     \<lparr>url_input = str ''https://example.com'', wcag2a = True, wcag2aa = False,
      best_practice = False, aria = False, keyboard_testing = False, run_clicked = True\<rparr>"

definition no_standard :: ui_input where
  "no_standard = one_standard\<lparr>wcag2a := False\<rparr>"

definition bad_url :: ui_input where
  "bad_url = one_standard\<lparr>url_input := str ''example.com''\<rparr>"

definition ftp_request :: json_input where
  "ftp_request =
     \<lparr>selected_quick_url = [], typed_url = Some (str ''ftp://example.com''),
      check_clicked = True, filter_type = str ''All''\<rparr>"

definition example_request :: json_input where
  "example_request = ftp_request\<lparr>typed_url := Some (str ''https://example.com'')\<rparr>"

definition empty_request :: json_input where
  "empty_request = ftp_request\<lparr>typed_url := None\<rparr>"

definition fresh_session :: session where
  "fresh_session = \<lparr>run_test = None, test_url = None\<rparr>"

section \<open>Facts about strings\<close>

lemma str_in_iff: "str_in p s \<longleftrightarrow> (\<exists>u v. s = u @ p @ v)"
proof (induction s)
  case Nil
  then show ?case by auto
next
  case (Cons c cs)
  show ?case
  proof
    assume "str_in p (c # cs)"
    then consider "prefix p (c # cs)" | "str_in p cs" by auto
    then show "\<exists>u v. c # cs = u @ p @ v"
    proof cases
      case 1
      then obtain v where "c # cs = p @ v" by (auto simp: prefix_def)
      then have "c # cs = [] @ p @ v" by simp
      then show ?thesis by blast
    next
      case 2
      with Cons obtain u v where "cs = u @ p @ v" by auto
      then have "c # cs = (c # u) @ p @ v" by simp
      then show ?thesis by blast
    qed
  next
    assume "\<exists>u v. c # cs = u @ p @ v"
    then obtain u v where uv: "c # cs = u @ p @ v" by auto
    show "str_in p (c # cs)"
    proof (cases u)
      case Nil
      with uv have "prefix p (c # cs)" by (simp add: prefix_def)
      then show ?thesis by simp
    next
      case (Cons a u')
      with uv have "cs = u' @ p @ v" by simp
      with Cons.IH show ?thesis by auto
    qed
  qed
qed

lemma str_in_trans: "str_in p q \<Longrightarrow> str_in q s \<Longrightarrow> str_in p s"
  unfolding str_in_iff
  by (metis append.assoc)

lemma str_in_append_right: "str_in p s \<Longrightarrow> str_in p (a @ s)"
  unfolding str_in_iff by (metis append.assoc)

lemma str_in_append_left: "str_in p s \<Longrightarrow> str_in p (s @ b)"
  unfolding str_in_iff by (metis append.assoc)

lemma str_in_prefix: "prefix p s \<Longrightarrow> str_in p s"
  by (cases s) (auto simp: prefix_def)

lemma replace_scan_absent: "\<not> str_in old s \<Longrightarrow> replace_scan old new s = s"
  by (induction s) auto

lemma replace_scan_present:
  "old \<noteq> [] \<Longrightarrow> str_in old s \<Longrightarrow> str_in new (replace_scan old new s)"
proof (induction old new s rule: replace_scan.induct)
  case (1 old new)
  then show ?case by simp
next
  case (2 old new c cs)
  show ?case
  proof (cases "prefix old (c # cs)")
    case True
    with 2(3) have "replace_scan old new (c # cs) = new @ replace_scan old new (drop (length old) (c # cs))"
      by simp
    then show ?thesis by (simp add: str_in_prefix str_in_append_left)
  next
    case False
    with 2 have "str_in new (replace_scan old new cs)" by auto
    with False show ?thesis by auto
  qed
qed

lemma prefix_avoid: "prefix p (a @ g # b) \<Longrightarrow> g \<notin> set p \<Longrightarrow> prefix p a"
proof -
  assume pre: "prefix p (a @ g # b)" and g: "g \<notin> set p"
  from pre consider "prefix p a" | us where "p = a @ us" "prefix us (g # b)"
    by (auto simp: prefix_append)
  then show ?thesis
  proof cases
    case 1
    then show ?thesis .
  next
    case 2
    with g have "us = []" by (cases us) auto
    with 2 show ?thesis by simp
  qed
qed


lemma prefix_survives:
  "g \<notin> set p \<Longrightarrow> prefix p s \<Longrightarrow> prefix p (replace_scan (a @ [g]) (a @ [g] @ x) s)"
proof (induction s arbitrary: p)
  case Nil
  then show ?case by simp
next
  case (Cons c cs)
  show ?case
  proof (cases "prefix (a @ [g]) (c # cs)")
    case True
    then obtain rest where rest: "c # cs = a @ g # rest" by (auto simp: prefix_def)
    with Cons.prems have "prefix p a" using prefix_avoid[of p a g rest] by simp
    with True show ?thesis by simp
  next
    case False
    then have eq: "replace_scan (a @ [g]) (a @ [g] @ x) (c # cs) = c # replace_scan (a @ [g]) (a @ [g] @ x) cs"
      by simp
    show ?thesis
    proof (cases p)
      case Nil
      then show ?thesis by simp
    next
      case (Cons d p')
      with Cons.prems have "d = c" "prefix p' cs" "g \<notin> set p'" by auto
      with Cons.IH have "prefix p' (replace_scan (a @ [g]) (a @ [g] @ x) cs)" by blast
      with eq Cons \<open>d = c\<close> show ?thesis by simp
    qed
  qed
qed

lemma str_in_avoid:
  "str_in p (a @ g # rest) \<Longrightarrow> g \<notin> set p \<Longrightarrow> str_in p a \<or> str_in p rest"
proof (induction a)
  case Nil
  then show ?case by (cases p) auto
next
  case (Cons c a)
  from Cons.prems(1) consider "prefix p ((c # a) @ g # rest)" | "str_in p (a @ g # rest)"
    by auto
  then show ?case
  proof cases
    case 1
    with Cons.prems(2) have "prefix p (c # a)" using prefix_avoid[of p "c # a" g rest] by simp
    then show ?thesis by simp
  next
    case 2
    with Cons show ?thesis by auto
  qed
qed

lemma str_in_survives:
  "g \<notin> set p \<Longrightarrow> str_in p s \<Longrightarrow> str_in p (replace_scan (a @ [g]) (a @ [g] @ x) s)"
proof (induction "a @ [g]" "a @ [g] @ x" s rule: replace_scan.induct)
  case 1
  then show ?case by simp
next
  case (2 c cs)
  show ?case
  proof (cases "prefix (a @ [g]) (c # cs)")
    case True
    then obtain rest where rest: "c # cs = a @ g # rest" by (auto simp: prefix_def)
    then have dr: "drop (length (a @ [g])) (c # cs) = rest"
      by simp
    from True dr have eq: "replace_scan (a @ [g]) (a @ [g] @ x) (c # cs)
        = (a @ [g] @ x) @ replace_scan (a @ [g]) (a @ [g] @ x) rest"
      by simp
    from 2(4) rest 2(3) have "str_in p a \<or> str_in p rest" using str_in_avoid[of p a g rest] by simp
    then show ?thesis
    proof
      assume "str_in p a"
      then have "str_in p (a @ ([g] @ x) @ replace_scan (a @ [g]) (a @ [g] @ x) rest)"
        by (rule str_in_append_left)
      with eq show ?thesis by simp
    next
      assume "str_in p rest"
      with 2(1) True dr 2(3) have "str_in p (replace_scan (a @ [g]) (a @ [g] @ x) rest)" by simp
      then have "str_in p ((a @ [g] @ x) @ replace_scan (a @ [g]) (a @ [g] @ x) rest)"
        by (rule str_in_append_right)
      with eq show ?thesis by simp
    qed
  next
    case False
    then have eq: "replace_scan (a @ [g]) (a @ [g] @ x) (c # cs) = c # replace_scan (a @ [g]) (a @ [g] @ x) cs"
      by simp
    from 2(4) consider "prefix p (c # cs)" | "str_in p cs" by auto
    then show ?thesis
    proof cases
      case 1
      with 2(3) have "prefix p (replace_scan (a @ [g]) (a @ [g] @ x) (c # cs))"
        by (rule prefix_survives)
      then show ?thesis by (rule str_in_prefix)
    next
      case 2
      with "2.hyps"(2) False "2.prems"(1) have "str_in p (replace_scan (a @ [g]) (a @ [g] @ x) cs)" by simp
      with eq show ?thesis by simp
    qed
  qed
qed

lemma rstrip_prefix: "prefix (rstrip t) t"
proof -
  have "rev t = takeWhile is_space (rev t) @ dropWhile is_space (rev t)" by simp
  then have "t = rev (dropWhile is_space (rev t)) @ rev (takeWhile is_space (rev t))"
    by (metis rev_append rev_rev_ident)
  then show ?thesis unfolding rstrip_def by (metis prefixI)
qed

lemma prefix_rstrip:
  assumes "p \<noteq> []" "\<not> is_space (last p)"
  shows "prefix p (rstrip t) \<longleftrightarrow> prefix p t"
proof
  assume "prefix p (rstrip t)"
  then show "prefix p t" using rstrip_prefix prefix_order.trans by blast
next
  assume "prefix p t"
  then obtain r where t: "t = p @ r" by (auto simp: prefix_def)
  have lp: "last p \<in> set (rev p)" using assms(1) by simp
  show "prefix p (rstrip t)"
  proof (cases "\<forall>x\<in>set (rev r). is_space x")
    case True
    then have "dropWhile is_space (rev r @ rev p) = dropWhile is_space (rev p)"
      using dropWhile_append2[of "rev r" is_space "rev p"] by simp
    moreover have "dropWhile is_space (rev p) = rev p"
      using assms by (cases "rev p") (auto simp: last_rev hd_rev)
    ultimately show ?thesis by (simp add: rstrip_def t)
  next
    case False
    then obtain x where "x \<in> set (rev r)" "\<not> is_space x" by auto
    then have "dropWhile is_space (rev r @ rev p) = dropWhile is_space (rev r) @ rev p"
      by (simp add: dropWhile_append1)
    then show ?thesis by (simp add: rstrip_def t)
  qed
qed

lemma startswith_strip_doctype:
  "startswith (strip s) (str ''<!DOCTYPE'') \<longleftrightarrow> prefix (str ''<!DOCTYPE'') (lstrip s)"
  unfolding startswith_def strip_def
  by (rule prefix_rstrip) (simp_all add: str_def is_space_def)


lemma head_tag_split: "head_tag = str ''<head'' @ [of_char CHR ''>'']"
  by (simp add: head_tag_def str_def)

lemma head_tag_nonempty: "head_tag \<noteq> []"
  by (simp add: head_tag_def str_def)

lemma replace_head: "replace s head_tag new = replace_scan head_tag new s"
  by (simp add: replace_def head_tag_nonempty)

lemma head_survives:
  assumes "of_char CHR ''>'' \<notin> set p" "str_in p s"
  shows "str_in p (replace_scan head_tag (head_tag @ x) s)"
proof -
  have "str_in p (replace_scan (str ''<head'' @ [of_char CHR ''>''])
                   (str ''<head'' @ [of_char CHR ''>''] @ x) s)"
    using assms by (rule str_in_survives)
  then show ?thesis by (simp add: head_tag_split)
qed

lemma marker_kept:
  assumes "of_char CHR ''>'' \<notin> set m" "str_in m s \<or> \<not> str_in head_tag s"
  shows "str_in m (replace_scan head_tag (head_tag @ x) s) \<or>
         \<not> str_in head_tag (replace_scan head_tag (head_tag @ x) s)"
proof (cases "str_in m s")
  case True
  with assms(1) show ?thesis by (simp add: head_survives)
next
  case False
  with assms(2) have "\<not> str_in head_tag s" by simp
  then show ?thesis by (simp add: replace_scan_absent)
qed

lemma marker_made:
  assumes "str_in m (head_tag @ x)"
  shows "str_in m (replace_scan head_tag (head_tag @ x) s) \<or>
         \<not> str_in head_tag (replace_scan head_tag (head_tag @ x) s)"
proof (cases "str_in head_tag s")
  case True
  then have "str_in (head_tag @ x) (replace_scan head_tag (head_tag @ x) s)"
    using head_tag_nonempty by (simp add: replace_scan_present)
  with assms show ?thesis using str_in_trans by blast
next
  case False
  then show ?thesis by (simp add: replace_scan_absent)
qed

lemma marker_noop:
  "str_in m s \<or> \<not> str_in head_tag s \<Longrightarrow>
   (if \<not> str_in m s then replace_scan head_tag new s else s) = s"
  by (auto simp: replace_scan_absent)

lemma charset_new: \<open>str ''<head>\<newline>    <meta charset="UTF-8">'' = head_tag @ str ''\<newline>    <meta charset="UTF-8">''\<close>
  by (simp add: str_def head_tag_def)

lemma viewport_new: \<open>str ''<head>\<newline>    <meta name="viewport" content="width=device-width, initial-scale=1.0">''
   = head_tag @ str ''\<newline>    <meta name="viewport" content="width=device-width, initial-scale=1.0">''\<close>
  by (simp add: str_def head_tag_def)

lemma csp_new: "str ''<head>\<newline>    '' @ csp_meta = head_tag @ (str ''\<newline>    '' @ csp_meta)"
  by (simp add: str_def head_tag_def)

lemma charset_in_new: \<open>str_in (str ''<meta charset='') (head_tag @ str ''\<newline>    <meta charset="UTF-8">'')\<close>
  by (simp add: str_def head_tag_def)

lemma viewport_in_new: \<open>str_in (str ''viewport'') (head_tag @ str ''\<newline>    <meta name="viewport" content="width=device-width, initial-scale=1.0">'')\<close>
  by (simp add: str_def head_tag_def)

lemma csp_in_new: "str_in (str ''Content-Security-Policy'') (head_tag @ (str ''\<newline>    '' @ csp_meta))"
  by (simp add: str_def head_tag_def csp_meta_def)

lemma no_gt_charset: "of_char CHR ''>'' \<notin> set (str ''<meta charset='')"
  by (simp add: str_def)

lemma no_gt_viewport: "of_char CHR ''>'' \<notin> set (str ''viewport'')"
  by (simp add: str_def)



lemma lstrip_add_doctype: "prefix (str ''<!DOCTYPE'') (lstrip (add_doctype h))"
proof (cases "startswith (strip h) (str ''<!DOCTYPE'')")
  case True
  then show ?thesis by (simp add: add_doctype_def startswith_strip_doctype)
next
  case False
  then have "add_doctype h = str ''<!DOCTYPE html>\<newline>'' @ h" by (simp add: add_doctype_def)
  then show ?thesis by (simp add: lstrip_def str_def is_space_def)
qed

lemma replace_scan_doctype:
  "replace_scan head_tag new (str ''<!DOCTYPE'' @ t) = str ''<!DOCTYPE'' @ replace_scan head_tag new t"
  by (simp add: str_def head_tag_def)

lemma space_not_lt: "is_space c \<Longrightarrow> \<not> prefix head_tag (c # cs)"
  by (auto simp: head_tag_def str_def is_space_def)

lemma doctype_replace:
  "prefix (str ''<!DOCTYPE'') (lstrip s) \<Longrightarrow>
   prefix (str ''<!DOCTYPE'') (lstrip (replace_scan head_tag new s))"
proof (induction s)
  case Nil
  then show ?case by simp
next
  case (Cons c cs)
  show ?case
  proof (cases "is_space c")
    case True
    with Cons show ?thesis by (simp add: lstrip_def space_not_lt)
  next
    case False
    with Cons.prems obtain t where t: "c # cs = str ''<!DOCTYPE'' @ t"
      by (auto simp: lstrip_def prefix_def)
    have "lstrip (str ''<!DOCTYPE'' @ replace_scan head_tag new t)
          = str ''<!DOCTYPE'' @ replace_scan head_tag new t"
      by (simp add: lstrip_def str_def is_space_def)
    then show ?thesis unfolding t replace_scan_doctype by simp
  qed
qed

lemma add_doctype_noop: "prefix (str ''<!DOCTYPE'') (lstrip s) \<Longrightarrow> add_doctype s = s"
  by (simp add: add_doctype_def startswith_strip_doctype)

lemma add_charset_doctype:
  "prefix (str ''<!DOCTYPE'') (lstrip s) \<Longrightarrow> prefix (str ''<!DOCTYPE'') (lstrip (add_charset s))"
  by (simp add: add_charset_def replace_head doctype_replace)

lemma add_viewport_doctype:
  "prefix (str ''<!DOCTYPE'') (lstrip s) \<Longrightarrow> prefix (str ''<!DOCTYPE'') (lstrip (add_viewport s))"
  by (simp add: add_viewport_def replace_head doctype_replace)

lemma add_csp_doctype:
  "prefix (str ''<!DOCTYPE'') (lstrip s) \<Longrightarrow> prefix (str ''<!DOCTYPE'') (lstrip (add_csp s))"
  by (simp add: add_csp_def replace_head doctype_replace)

lemma add_charset_made:
  "str_in (str ''<meta charset='') (add_charset s) \<or> \<not> str_in head_tag (add_charset s)"
  unfolding add_charset_def replace_head charset_new
  using marker_made[OF charset_in_new, of s] by simp

lemma add_viewport_made:
  "str_in (str ''viewport'') (add_viewport s) \<or> \<not> str_in head_tag (add_viewport s)"
  unfolding add_viewport_def replace_head viewport_new
  using marker_made[OF viewport_in_new, of s] by simp

lemma add_csp_made:
  "str_in (str ''Content-Security-Policy'') (add_csp s) \<or> \<not> str_in head_tag (add_csp s)"
  unfolding add_csp_def replace_head csp_new
  using marker_made[OF csp_in_new, of s] by simp

lemma add_viewport_kept:
  "of_char CHR ''>'' \<notin> set m \<Longrightarrow> str_in m s \<or> \<not> str_in head_tag s \<Longrightarrow>
   str_in m (add_viewport s) \<or> \<not> str_in head_tag (add_viewport s)"
  unfolding add_viewport_def replace_head viewport_new
  using marker_kept by simp

lemma add_csp_kept:
  "of_char CHR ''>'' \<notin> set m \<Longrightarrow> str_in m s \<or> \<not> str_in head_tag s \<Longrightarrow>
   str_in m (add_csp s) \<or> \<not> str_in head_tag (add_csp s)"
  unfolding add_csp_def replace_head csp_new
  using marker_kept by simp

lemma add_charset_noop:
  "str_in (str ''<meta charset='') s \<or> \<not> str_in head_tag s \<Longrightarrow> add_charset s = s"
  unfolding add_charset_def replace_head by (rule marker_noop)

lemma add_viewport_noop:
  "str_in (str ''viewport'') s \<or> \<not> str_in head_tag s \<Longrightarrow> add_viewport s = s"
  unfolding add_viewport_def replace_head by (rule marker_noop)

lemma add_csp_noop:
  "str_in (str ''Content-Security-Policy'') s \<or> \<not> str_in head_tag s \<Longrightarrow> add_csp s = s"
  unfolding add_csp_def replace_head by (rule marker_noop)










section \<open>The claims about \<open>render_html\<close>\<close>

text \<open>
  C3: \<open>render_html\<close> is idempotent.  For every string \<open>h\<close>, applying \<open>render_html\<close>
  to its own output changes nothing, and each of the four guarded steps (doctype,
  charset, viewport, content security policy) leaves that output as it is.
\<close>

theorem render_html_idempotent:
  "render_html (render_html h) = render_html h \<and>
   add_doctype (render_html h) = render_html h \<and>
   add_charset (render_html h) = render_html h \<and>
   add_viewport (render_html h) = render_html h \<and>
   add_csp (render_html h) = render_html h"
proof -
  define h1 where "h1 = add_doctype h"
  define h2 where "h2 = add_charset h1"
  define h3 where "h3 = add_viewport h2"
  define r where "r = add_csp h3"
  have r: "render_html h = r" by (simp add: render_html_def r_def h3_def h2_def h1_def)
  have "prefix (str ''<!DOCTYPE'') (lstrip h1)" unfolding h1_def by (rule lstrip_add_doctype)
  then have "prefix (str ''<!DOCTYPE'') (lstrip r)"
    unfolding r_def h3_def h2_def
    by (intro add_csp_doctype add_viewport_doctype add_charset_doctype)
  then have d: "add_doctype r = r" by (rule add_doctype_noop)
  have "str_in (str ''<meta charset='') h2 \<or> \<not> str_in head_tag h2"
    unfolding h2_def by (rule add_charset_made)
  then have "str_in (str ''<meta charset='') r \<or> \<not> str_in head_tag r"
    unfolding r_def h3_def
    by (intro add_csp_kept add_viewport_kept no_gt_charset)
  then have c: "add_charset r = r" by (rule add_charset_noop)
  have "str_in (str ''viewport'') h3 \<or> \<not> str_in head_tag h3"
    unfolding h3_def by (rule add_viewport_made)
  then have "str_in (str ''viewport'') r \<or> \<not> str_in head_tag r"
    unfolding r_def by (intro add_csp_kept no_gt_viewport)
  then have v: "add_viewport r = r" by (rule add_viewport_noop)
  have "str_in (str ''Content-Security-Policy'') r \<or> \<not> str_in head_tag r"
    unfolding r_def by (rule add_csp_made)
  then have p: "add_csp r = r" by (rule add_csp_noop)
  have "render_html r = r" by (simp add: render_html_def d c v p)
  with d c v p show ?thesis by (simp add: r)
qed

theorem render_html_idempotent_witness:
  "render_html (render_html (str ''<html><head></head><body>x</body></html>''))
     = render_html (str ''<html><head></head><body>x</body></html>'')"
  using render_html_idempotent [of "str ''<html><head></head><body>x</body></html>''"]
  by simp

lemma scenario_doctype:
  "add_doctype scenario_html = str ''<!DOCTYPE html>\<newline><html><head></head><body>x</body></html>''"
  by (simp add: scenario_html_def add_doctype_def startswith_def strip_def rstrip_def lstrip_def
      str_def is_space_def)

lemma scenario_charset:
  \<open>add_charset (str ''<!DOCTYPE html>\<newline><html><head></head><body>x</body></html>'')
   = str ''<!DOCTYPE html>\<newline><html><head>\<newline>    <meta charset="UTF-8"></head><body>x</body></html>''\<close>
  by (simp add: add_charset_def replace_def str_def head_tag_def)

lemma scenario_viewport:
  \<open>add_viewport (str ''<!DOCTYPE html>\<newline><html><head>\<newline>    <meta charset="UTF-8"></head><body>x</body></html>'')
   = str ''<!DOCTYPE html>\<newline><html><head>\<newline>    <meta name="viewport" content="width=device-width, initial-scale=1.0">\<newline>    <meta charset="UTF-8"></head><body>x</body></html>''\<close>
  by (simp add: add_viewport_def replace_def str_def head_tag_def)

lemma scenario_csp:
  \<open>add_csp (str ''<!DOCTYPE html>\<newline><html><head>\<newline>    <meta name="viewport" content="width=device-width, initial-scale=1.0">\<newline>    <meta charset="UTF-8"></head><body>x</body></html>'')
   = str ''<!DOCTYPE html>\<newline><html><head>\<newline>    <meta http-equiv="Content-Security-Policy" content="default-src * 'unsafe-inline' 'unsafe-eval' data: blob:;">\<newline>    <meta name="viewport" content="width=device-width, initial-scale=1.0">\<newline>    <meta charset="UTF-8"></head><body>x</body></html>''\<close>
  by (simp add: add_csp_def replace_def str_def head_tag_def csp_meta_def)

lemma scenario_render:
  \<open>render_html scenario_html
   = str ''<!DOCTYPE html>\<newline><html><head>\<newline>    <meta http-equiv="Content-Security-Policy" content="default-src * 'unsafe-inline' 'unsafe-eval' data: blob:;">\<newline>    <meta name="viewport" content="width=device-width, initial-scale=1.0">\<newline>    <meta charset="UTF-8"></head><body>x</body></html>''\<close>
  by (simp only: render_html_def scenario_doctype scenario_charset scenario_viewport scenario_csp)

lemma scenario_one_doctype: "occurrences (str ''<!DOCTYPE'') (render_html scenario_html) = 1"
  unfolding scenario_render by (simp add: str_def)

lemma scenario_one_charset: "occurrences (str ''<meta charset='') (render_html scenario_html) = 1"
  unfolding scenario_render by (simp add: str_def)

lemma scenario_one_viewport: "occurrences (str ''viewport'') (render_html scenario_html) = 1"
  unfolding scenario_render by (simp add: str_def)

lemma scenario_one_csp:
  "occurrences (str ''Content-Security-Policy'') (render_html scenario_html) = 1"
  unfolding scenario_render by (simp add: str_def)

lemma scenario_three_meta: "occurrences (str ''<meta '') (render_html scenario_html) = 3"
  unfolding scenario_render by (simp add: str_def)

lemma scenario_one_body: "occurrences (str ''<body>x</body>'') (render_html scenario_html) = 1"
  unfolding scenario_render by (simp add: str_def)

text \<open>
  C4: for the document \<open><html><head></head><body>x</body></html>\<close>, \<open>render_html\<close>
  prepends the doctype, then puts the charset tag, then the viewport tag, then the
  content security policy tag after \<open><head>\<close>.  The result has exactly one doctype,
  one charset tag, one viewport tag and one policy tag (three \<open>meta\<close> tags in all),
  and the body \<open><body>x</body>\<close> as it was.
\<close>

theorem render_html_scenario:
  \<open>add_doctype scenario_html
     = str ''<!DOCTYPE html>\<newline><html><head></head><body>x</body></html>'' \<and>
   add_charset (add_doctype scenario_html)
     = str ''<!DOCTYPE html>\<newline><html><head>\<newline>    <meta charset="UTF-8"></head><body>x</body></html>'' \<and>
   add_viewport (add_charset (add_doctype scenario_html))
     = str ''<!DOCTYPE html>\<newline><html><head>\<newline>    <meta name="viewport" content="width=device-width, initial-scale=1.0">\<newline>    <meta charset="UTF-8"></head><body>x</body></html>'' \<and>
   render_html scenario_html
     = str ''<!DOCTYPE html>\<newline><html><head>\<newline>    <meta http-equiv="Content-Security-Policy" content="default-src * 'unsafe-inline' 'unsafe-eval' data: blob:;">\<newline>    <meta name="viewport" content="width=device-width, initial-scale=1.0">\<newline>    <meta charset="UTF-8"></head><body>x</body></html>'' \<and>
   render_html scenario_html = add_csp (add_viewport (add_charset (add_doctype scenario_html))) \<and>
   occurrences (str ''<!DOCTYPE'') (render_html scenario_html) = 1 \<and>
   occurrences (str ''<meta charset='') (render_html scenario_html) = 1 \<and>
   occurrences (str ''viewport'') (render_html scenario_html) = 1 \<and>
   occurrences (str ''Content-Security-Policy'') (render_html scenario_html) = 1 \<and>
   occurrences (str ''<meta '') (render_html scenario_html) = 3 \<and>
   occurrences (str ''<body>x</body>'') (render_html scenario_html) = 1\<close>
  by (intro conjI)
    (rule scenario_doctype scenario_render scenario_one_doctype scenario_one_charset
       scenario_one_viewport scenario_one_csp scenario_three_meta scenario_one_body
     | simp only: scenario_doctype scenario_charset scenario_viewport
     | simp only: render_html_def)+

theorem render_html_scenario_witness:
  "occurrences (str ''<!DOCTYPE'') (render_html scenario_html) = 1 \<and>
   occurrences (str ''<meta '') (render_html scenario_html) = 3"
  using render_html_scenario by blast

section \<open>The claim about \<open>is_valid_url\<close>\<close>

lemma rx_match_literals: "rx_match (map Lit p) s = prefix p s"
  by (induction p arbitrary: s) (auto split: list.splits simp: prefix_Cons)

lemma rx_match_literals_then: "rx_match (map Lit p @ r) s = (\<exists>t. s = p @ t \<and> rx_match r t)"
  by (induction p arbitrary: s) (auto split: list.splits)

lemma is_valid_url_prefix:
  "is_valid_url u \<longleftrightarrow>
     prefix (str ''http://'') (strip u) \<or> prefix (str ''https://'') (strip u)"
  unfolding is_valid_url_def url_pattern_def
  apply (simp add: rx_match_literals_then rx_match_literals str_def del: of_char_Char)
  apply (auto simp: prefix_def simp del: of_char_Char split: list.splits)
  done

text \<open>
  C5: \<open>is_valid_url s\<close> holds exactly when \<open>s\<close>, with the whitespace at both ends
  removed, starts with \<open>http://\<close> or \<open>https://\<close>.  Nothing after the prefix is
  looked at (\<open>http://\<close> alone and \<open>https://x\<close> are valid, also between blanks), the
  scheme is matched in lower case only, and the function is total and has no effect.
\<close>

theorem is_valid_url_iff:
  "(is_valid_url s \<longleftrightarrow>
      startswith (strip s) (str ''http://'') \<or> startswith (strip s) (str ''https://'')) \<and>
   is_valid_url (str ''http://'') \<and>
   is_valid_url (str ''https://x'') \<and>
   is_valid_url (str ''  https://x '') \<and>
   \<not> is_valid_url (str ''HTTP://x'') \<and>
   \<not> is_valid_url (str ''ftp://x'')"
proof -
  note ev = is_valid_url_def url_pattern_def strip_def lstrip_def rstrip_def is_space_def str_def
  have "is_valid_url (str ''http://'')" by (simp add: ev)
  moreover have "is_valid_url (str ''https://x'')" by (simp add: ev)
  moreover have "is_valid_url (str ''  https://x '')" by (simp add: ev)
  moreover have "\<not> is_valid_url (str ''HTTP://x'')" by (simp add: ev)
  moreover have "\<not> is_valid_url (str ''ftp://x'')" by (simp add: ev)
  ultimately show ?thesis by (simp add: is_valid_url_prefix startswith_def)
qed

theorem is_valid_url_iff_witness:
  "is_valid_url (str ''https://example.com/a b'') \<and>
   startswith (strip (str ''https://example.com/a b'')) (str ''https://'')"
proof -
  have "startswith (strip (str ''https://example.com/a b'')) (str ''https://'')"
    by (simp add: startswith_def strip_def lstrip_def rstrip_def is_space_def str_def)
  with is_valid_url_iff [of "str ''https://example.com/a b''"] show ?thesis by blast
qed








section \<open>The claims about \<open>run_accessibility_check\<close>\<close>

lemma run_accessibility_check_exit0:
  assumes "node E [str ''node'', node_script self, url] (files w) = Runs (Some n) 0 so se ef"
    and "n \<le> 60" and "json_loads E so = Inr payload"
  shows "fst (run_accessibility_check self E url w) = Returns payload"
  using assms by (simp add: run_accessibility_check_def subprocess_run_def Let_def)

lemma run_accessibility_check_nonzero:
  assumes "node E [str ''node'', node_script self, url] (files w) = Runs (Some n) r so se ef"
    and "n \<le> 60" and "r \<noteq> 0"
  shows "fst (run_accessibility_check self E url w) = Returns (failure_result se)"
  using assms by (simp add: run_accessibility_check_def subprocess_run_def Let_def)

lemma run_accessibility_check_unparseable:
  assumes "node E [str ''node'', node_script self, url] (files w) = Runs (Some n) 0 so se ef"
    and "n \<le> 60" and "json_loads E so = Inl (Exc m)"
  shows "fst (run_accessibility_check self E url w) = Returns (exception_result m)"
  using assms by (simp add: run_accessibility_check_def subprocess_run_def Let_def exn_str_def)

lemma failure_result_html:
  \<open>subscript (failure_result se) (str ''streamlitHtml'')
     = Inr (JStr (str ''<div style="padding: 20px; color: red;">Error: '' @ se @ str ''</div>''))\<close>
  by (simp add: failure_result_def str_def)

lemma exception_result_html:
  \<open>subscript (exception_result m) (str ''streamlitHtml'')
     = Inr (JStr (str ''<div style="padding: 20px; color: red;">Error: '' @ m @ str ''</div>''))\<close>
  by (simp add: exception_result_def str_def)

lemma str_in_middle: "str_in m (a @ m @ b)"
  unfolding str_in_iff by blast

text \<open>
  C1, as stated, fails.  The auditor exits with code 0 and prints
  \<open>{"success": false, "error": "boom"}\<close>; \<open>run_accessibility_check\<close> returns the parsed
  payload as it is, which has the error string and no \<open>streamlitHtml\<close> entry, and
  \<open>main\<close> shows the error message and no HTML.
\<close>

theorem payload_without_fallback_html:
  "rc (node boom_env [str ''node'', node_script StreamlitA11yIntegration, str ''https://example.com'']
        (files world0)) = 0 \<and>
   out (node boom_env [str ''node'', node_script StreamlitA11yIntegration, str ''https://example.com'']
        (files world0)) = boom_document \<and>
   json_loads boom_env boom_document = Inr boom_payload \<and>
   subscript boom_payload (str ''success'') = Inr (JBool False) \<and>
   fst (run_accessibility_check StreamlitA11yIntegration boom_env (str ''https://example.com'') world0)
     = Returns boom_payload \<and>
   subscript boom_payload (str ''error'') = Inr (JStr (str ''boom'')) \<and>
   \<not> has_key boom_payload (str ''streamlitHtml'') \<and>
   subscript boom_payload (str ''streamlitHtml'') = Inl (KeyError (str ''streamlitHtml'')) \<and>
   shown (snd (snd (main boom_env
      \<lparr>selected_quick_url = [], typed_url = Some (str ''https://example.com''),
        check_clicked = True, filter_type = str ''All''\<rparr>
      \<lparr>run_test = None, test_url = None\<rparr> world0)))
     = [Header (str ''Testing: https://example.com''),
        Error (str ''Failed to check accessibility: boom'')]"
proof -
  have k: "subscript boom_payload (str ''success'') = Inr (JBool False)"
    "subscript boom_payload (str ''error'') = Inr (JStr (str ''boom''))"
    "\<not> has_key boom_payload (str ''streamlitHtml'')"
    "subscript boom_payload (str ''streamlitHtml'') = Inl (KeyError (str ''streamlitHtml''))"
    by (simp_all add: boom_payload_def str_def)
  have m: "shown (snd (snd (main boom_env
      \<lparr>selected_quick_url = [], typed_url = Some (str ''https://example.com''),
        check_clicked = True, filter_type = str ''All''\<rparr>
      \<lparr>run_test = None, test_url = None\<rparr> world0)))
     = [Header (str ''Testing: https://example.com''),
        Error (str ''Failed to check accessibility: boom'')]"
    by (simp add: main_def Let_def run_accessibility_check_def subprocess_run_def boom_env_def
        auditor_def world0_def display_def StreamlitA11yIntegration_def boom_payload_def
        boom_document_def format_def str_def)
  have "fst (run_accessibility_check StreamlitA11yIntegration boom_env (str ''https://example.com'') world0)
     = Returns boom_payload"
    by (simp add: run_accessibility_check_def subprocess_run_def Let_def boom_env_def auditor_def
        world0_def)
  moreover have "rc (node boom_env [str ''node'', node_script StreamlitA11yIntegration, str ''https://example.com'']
        (files world0)) = 0"
    "out (node boom_env [str ''node'', node_script StreamlitA11yIntegration, str ''https://example.com'']
        (files world0)) = boom_document"
    "json_loads boom_env boom_document = Inr boom_payload"
    by (simp_all add: boom_env_def auditor_def)
  ultimately show ?thesis using k m by simp
qed

lemma failure_result_error:
  "subscript (failure_result se) (str ''error'') = Inr (JStr (str ''Node.js script failed: '' @ se))"
  by (simp add: failure_result_def str_def)

lemma exception_result_error:
  "subscript (exception_result m) (str ''error'') = Inr (JStr m)"
  by (simp add: exception_result_def str_def)

lemma main_failed_result:
  assumes "selected_quick_url j = []" "typed_url j = Some u" "u \<noteq> []" "check_clicked j"
    and "run_accessibility_check StreamlitA11yIntegration E u
           (display (Header (str ''Testing: '' @ u)) w0) = (Returns result, w3)"
    and "subscript result (str ''success'') = Inr ok" "\<not> truthy ok"
    and "subscript result (str ''error'') = Inr er"
  shows "shown (snd (snd (main E j s0 w0)))
           = shown w3 @ [Error (str ''Failed to check accessibility: '' @ format E er)] @
             (if has_key result (str ''streamlitHtml'')
              then (case subscript result (str ''streamlitHtml'') of
                      Inl e \<Rightarrow> [] | Inr h \<Rightarrow> [Html h 200])
              else [])"
  using assms
  by (simp add: main_def Let_def display_def split: sum.splits)

text \<open>
  C1, amended: when the auditor exits with code 0 within the budget and its output
  parses as a JSON payload, \<open>run_accessibility_check\<close> returns exactly that payload,
  so a payload with a false success flag keeps its error string and has HTML only if
  the auditor put a \<open>streamlitHtml\<close> entry into it.  The function builds a fallback
  HTML fragment itself on its own failure paths: when the auditor exits with another
  code, the error is \<open>Node.js script failed: \<close> followed by the captured error
  stream, and the fragment contains that stream; when the output does not parse, the
  error is the text of the exception, and the fragment contains it.  When the button
  is pressed with a non-empty URL typed in and no quick URL chosen, and the check
  returns a result with a false success flag and an error entry, \<open>main\<close> shows the
  error message and then the result's \<open>streamlitHtml\<close> if the result has that key,
  and no HTML otherwise.
\<close>

theorem exit0_payload_returned_unchanged:
  "(node E [str ''node'', node_script self, url] (files w) = Runs (Some n) 0 so se ef \<and>
    n \<le> 60 \<and> json_loads E so = Inr payload \<longrightarrow>
      fst (run_accessibility_check self E url w) = Returns payload) \<and>
   (node E [str ''node'', node_script self, url] (files w) = Runs (Some n) r so se ef \<and>
    n \<le> 60 \<and> r \<noteq> 0 \<longrightarrow>
      (\<exists>html. fst (run_accessibility_check self E url w) = Returns (failure_result se) \<and>
              subscript (failure_result se) (str ''error'')
                = Inr (JStr (str ''Node.js script failed: '' @ se)) \<and>
              subscript (failure_result se) (str ''streamlitHtml'') = Inr (JStr html) \<and>
              str_in se html)) \<and>
   (node E [str ''node'', node_script self, url] (files w) = Runs (Some n) 0 so se ef \<and>
    n \<le> 60 \<and> json_loads E so = Inl (Exc m) \<longrightarrow>
      (\<exists>html. fst (run_accessibility_check self E url w) = Returns (exception_result m) \<and>
              subscript (exception_result m) (str ''error'') = Inr (JStr m) \<and>
              subscript (exception_result m) (str ''streamlitHtml'') = Inr (JStr html) \<and>
              str_in m html)) \<and>
   (selected_quick_url j = [] \<and> typed_url j = Some u \<and> u \<noteq> [] \<and> check_clicked j \<and>
    run_accessibility_check StreamlitA11yIntegration E u
      (display (Header (str ''Testing: '' @ u)) w0) = (Returns result, w3) \<and>
    subscript result (str ''success'') = Inr ok \<and> \<not> truthy ok \<and>
    subscript result (str ''error'') = Inr er \<longrightarrow>
      shown (snd (snd (main E j s0 w0)))
        = shown w3 @ [Error (str ''Failed to check accessibility: '' @ format E er)] @
          (if has_key result (str ''streamlitHtml'')
           then (case subscript result (str ''streamlitHtml'') of
                   Inl e \<Rightarrow> [] | Inr h \<Rightarrow> [Html h 200])
           else []))"
proof (intro conjI impI; elim conjE)
  assume "node E [str ''node'', node_script self, url] (files w) = Runs (Some n) 0 so se ef"
    "n \<le> 60" "json_loads E so = Inr payload"
  then show "fst (run_accessibility_check self E url w) = Returns payload"
    by (rule run_accessibility_check_exit0)
next
  assume "node E [str ''node'', node_script self, url] (files w) = Runs (Some n) r so se ef"
    "n \<le> 60" "r \<noteq> 0"
  then have "fst (run_accessibility_check self E url w) = Returns (failure_result se)"
    by (rule run_accessibility_check_nonzero)
  then show "\<exists>html. fst (run_accessibility_check self E url w) = Returns (failure_result se) \<and>
              subscript (failure_result se) (str ''error'')
                = Inr (JStr (str ''Node.js script failed: '' @ se)) \<and>
              subscript (failure_result se) (str ''streamlitHtml'') = Inr (JStr html) \<and>
              str_in se html"
    using failure_result_html failure_result_error str_in_middle by blast
next
  assume "node E [str ''node'', node_script self, url] (files w) = Runs (Some n) 0 so se ef"
    "n \<le> 60" "json_loads E so = Inl (Exc m)"
  then have "fst (run_accessibility_check self E url w) = Returns (exception_result m)"
    by (rule run_accessibility_check_unparseable)
  then show "\<exists>html. fst (run_accessibility_check self E url w) = Returns (exception_result m) \<and>
              subscript (exception_result m) (str ''error'') = Inr (JStr m) \<and>
              subscript (exception_result m) (str ''streamlitHtml'') = Inr (JStr html) \<and>
              str_in m html"
    using exception_result_html exception_result_error str_in_middle by blast
next
  assume "selected_quick_url j = []" "typed_url j = Some u" "u \<noteq> []" "check_clicked j"
    "run_accessibility_check StreamlitA11yIntegration E u
      (display (Header (str ''Testing: '' @ u)) w0) = (Returns result, w3)"
    "subscript result (str ''success'') = Inr ok" "\<not> truthy ok"
    "subscript result (str ''error'') = Inr er"
  then show "shown (snd (snd (main E j s0 w0)))
        = shown w3 @ [Error (str ''Failed to check accessibility: '' @ format E er)] @
          (if has_key result (str ''streamlitHtml'')
           then (case subscript result (str ''streamlitHtml'') of
                   Inl e \<Rightarrow> [] | Inr h \<Rightarrow> [Html h 200])
           else [])"
    by (rule main_failed_result)
qed

theorem exit0_payload_returned_unchanged_witness:
  "fst (run_accessibility_check StreamlitA11yIntegration boom_env (str ''https://example.com'') world0)
     = Returns boom_payload \<and>
   (\<exists>html. fst (run_accessibility_check StreamlitA11yIntegration (auditor 1 [] (str ''boom''))
               (str ''https://example.com'') world0) = Returns (failure_result (str ''boom'')) \<and>
           subscript (failure_result (str ''boom'')) (str ''error'')
             = Inr (JStr (str ''Node.js script failed: '' @ str ''boom'')) \<and>
           subscript (failure_result (str ''boom'')) (str ''streamlitHtml'') = Inr (JStr html) \<and>
           str_in (str ''boom'') html) \<and>
   (\<exists>html. fst (run_accessibility_check StreamlitA11yIntegration (auditor 0 [] [])
               (str ''https://example.com'') world0)
             = Returns (exception_result (str ''Expecting value: line 1 column 1 (char 0)'')) \<and>
           subscript (exception_result (str ''Expecting value: line 1 column 1 (char 0)''))
             (str ''error'') = Inr (JStr (str ''Expecting value: line 1 column 1 (char 0)'')) \<and>
           subscript (exception_result (str ''Expecting value: line 1 column 1 (char 0)''))
             (str ''streamlitHtml'') = Inr (JStr html) \<and>
           str_in (str ''Expecting value: line 1 column 1 (char 0)'') html) \<and>
   shown (snd (snd (main boom_env example_request fresh_session world0)))
     = shown (snd (run_accessibility_check StreamlitA11yIntegration boom_env
                     (str ''https://example.com'')
                     (display (Header (str ''Testing: '' @ str ''https://example.com'')) world0))) @
       [Error (str ''Failed to check accessibility: '' @ str ''boom'')]"
proof -
  have a: "node boom_env [str ''node'', node_script StreamlitA11yIntegration, str ''https://example.com'']
             (files world0) = Runs (Some 1) 0 boom_document [] (\<lambda>f x. x)"
    "json_loads boom_env boom_document = Inr boom_payload"
    by (simp_all add: boom_env_def auditor_def)
  have b: "node (auditor 1 [] (str ''boom''))
             [str ''node'', node_script StreamlitA11yIntegration, str ''https://example.com'']
             (files world0) = Runs (Some 1) 1 [] (str ''boom'') (\<lambda>f x. x)"
    by (simp add: auditor_def)
  have c: "node (auditor 0 [] [])
             [str ''node'', node_script StreamlitA11yIntegration, str ''https://example.com'']
             (files world0) = Runs (Some 1) 0 [] [] (\<lambda>f x. x)"
    "json_loads (auditor 0 [] []) [] = Inl (Exc (str ''Expecting value: line 1 column 1 (char 0)''))"
    by (simp_all add: auditor_def)
  have le: "(1::nat) \<le> 60" and ne: "(1::int) \<noteq> 0" by simp_all
  have d: "selected_quick_url example_request = []"
    "typed_url example_request = Some (str ''https://example.com'')"
    "str ''https://example.com'' \<noteq> []" "check_clicked example_request"
    by (simp_all add: example_request_def ftp_request_def str_def)
  have "fst (run_accessibility_check StreamlitA11yIntegration boom_env (str ''https://example.com'')
               (display (Header (str ''Testing: '' @ str ''https://example.com'')) world0))
          = Returns boom_payload"
    by (simp add: run_accessibility_check_def subprocess_run_def Let_def boom_env_def auditor_def
        display_def)
  then have e: "run_accessibility_check StreamlitA11yIntegration boom_env (str ''https://example.com'')
               (display (Header (str ''Testing: '' @ str ''https://example.com'')) world0)
          = (Returns boom_payload,
             snd (run_accessibility_check StreamlitA11yIntegration boom_env (str ''https://example.com'')
                    (display (Header (str ''Testing: '' @ str ''https://example.com'')) world0)))"
    by (metis prod.collapse)
  have k: "subscript boom_payload (str ''success'') = Inr (JBool False)" "\<not> truthy (JBool False)"
    "subscript boom_payload (str ''error'') = Inr (JStr (str ''boom''))"
    "\<not> has_key boom_payload (str ''streamlitHtml'')"
    "format boom_env (JStr (str ''boom'')) = str ''boom''"
    by (simp_all add: boom_payload_def format_def str_def)
  from a le
    exit0_payload_returned_unchanged
      [where E = boom_env and self = StreamlitA11yIntegration and url = "str ''https://example.com''"
         and w = world0 and n = 1 and so = boom_document and se = "[]" and ef = "\<lambda>f x. x"
         and payload = boom_payload]
  have 1: "fst (run_accessibility_check StreamlitA11yIntegration boom_env (str ''https://example.com'') world0)
     = Returns boom_payload" by blast
  from b le ne
    exit0_payload_returned_unchanged
      [where E = "auditor 1 [] (str ''boom'')" and self = StreamlitA11yIntegration
         and url = "str ''https://example.com''" and w = world0 and n = 1 and so = "[]"
         and se = "str ''boom''" and ef = "\<lambda>f x. x" and r = 1]
  have 2: "\<exists>html. fst (run_accessibility_check StreamlitA11yIntegration (auditor 1 [] (str ''boom''))
               (str ''https://example.com'') world0) = Returns (failure_result (str ''boom'')) \<and>
           subscript (failure_result (str ''boom'')) (str ''error'')
             = Inr (JStr (str ''Node.js script failed: '' @ str ''boom'')) \<and>
           subscript (failure_result (str ''boom'')) (str ''streamlitHtml'') = Inr (JStr html) \<and>
           str_in (str ''boom'') html" by blast
  from c le
    exit0_payload_returned_unchanged
      [where E = "auditor 0 [] []" and self = StreamlitA11yIntegration
         and url = "str ''https://example.com''" and w = world0 and n = 1 and so = "[]"
         and se = "[]" and ef = "\<lambda>f x. x"
         and m = "str ''Expecting value: line 1 column 1 (char 0)''"]
  have 3: "\<exists>html. fst (run_accessibility_check StreamlitA11yIntegration (auditor 0 [] [])
               (str ''https://example.com'') world0)
             = Returns (exception_result (str ''Expecting value: line 1 column 1 (char 0)'')) \<and>
           subscript (exception_result (str ''Expecting value: line 1 column 1 (char 0)''))
             (str ''error'') = Inr (JStr (str ''Expecting value: line 1 column 1 (char 0)'')) \<and>
           subscript (exception_result (str ''Expecting value: line 1 column 1 (char 0)''))
             (str ''streamlitHtml'') = Inr (JStr html) \<and>
           str_in (str ''Expecting value: line 1 column 1 (char 0)'') html" by blast
  from d e k(1,2,3)
    exit0_payload_returned_unchanged
      [where E = boom_env and j = example_request and u = "str ''https://example.com''"
         and ?w0.0 = world0 and result = boom_payload and ok = "JBool False"
         and er = "JStr (str ''boom'')" and ?s0.0 = fresh_session
         and ?w3.0 = "snd (run_accessibility_check StreamlitA11yIntegration boom_env
                     (str ''https://example.com'')
                     (display (Header (str ''Testing: '' @ str ''https://example.com'')) world0))"]
  have "shown (snd (snd (main boom_env example_request fresh_session world0)))
     = shown (snd (run_accessibility_check StreamlitA11yIntegration boom_env
                     (str ''https://example.com'')
                     (display (Header (str ''Testing: '' @ str ''https://example.com'')) world0))) @
       [Error (str ''Failed to check accessibility: '' @ format boom_env (JStr (str ''boom'')))] @
          (if has_key boom_payload (str ''streamlitHtml'')
           then (case subscript boom_payload (str ''streamlitHtml'') of
                   Inl e \<Rightarrow> [] | Inr h \<Rightarrow> [Html h 200])
           else [])"
    by blast
  with k(4,5) have 4: "shown (snd (snd (main boom_env example_request fresh_session world0)))
     = shown (snd (run_accessibility_check StreamlitA11yIntegration boom_env
                     (str ''https://example.com'')
                     (display (Header (str ''Testing: '' @ str ''https://example.com'')) world0))) @
       [Error (str ''Failed to check accessibility: '' @ str ''boom'')]"
    by simp
  from 1 2 3 4 show ?thesis by blast
qed

lemma timeout_result_fields:
  \<open>subscript timeout_result (str ''success'') = Inr (JBool False) \<and>
   subscript timeout_result (str ''error'') = Inr (JStr (str ''Request timed out'')) \<and>
   subscript timeout_result (str ''streamlitHtml'')
     = Inr (JStr (str ''<div style="padding: 20px; color: red;">Request timed out after 60 seconds</div>''))\<close>
  by (simp add: timeout_result_def str_def)

lemma timeout_result_distinct:
  "timeout_result \<noteq> failure_result x \<and>
   subscript timeout_result (str ''error'') \<noteq> subscript (failure_result x) (str ''error'')"
  by (simp add: timeout_result_def failure_result_def str_def)

lemma run_accessibility_check_killed:
  assumes "node E [str ''node'', node_script self, url] (files w) = Runs d r so se ef"
    and "d = None \<or> (\<exists>n. d = Some n \<and> 60 < n)"
  shows "run_accessibility_check self E url w =
           (Returns timeout_result,
            w\<lparr>calls := calls w @ [CheckCall url], files := ef Killed (files w),
              procs := procs w @ [([str ''node'', node_script self, url], Killed)]\<rparr>)"
  using assms by (auto simp: run_accessibility_check_def subprocess_run_def Let_def)

lemma run_accessibility_check_in_time:
  assumes "node E [str ''node'', node_script self, url] (files w) = Runs (Some n) r so se ef"
    and "n \<le> 60"
  shows "procs (snd (run_accessibility_check self E url w))
           = procs w @ [([str ''node'', node_script self, url], Exited)]"
  using assms
  by (auto simp: run_accessibility_check_def subprocess_run_def Let_def split: sum.splits)

text \<open>
  C6: \<open>run_accessibility_check\<close> gives the auditor a budget of 60 time units.  An
  auditor that has not exited by then (or never exits) is killed, and the call returns
  the timeout result: success false, the error \<open>Request timed out\<close> and its HTML
  fragment.  That result differs, already in its error text, from the result for any
  non-zero exit.  An auditor that exits within the budget is not killed.
\<close>

theorem timeout_after_budget:
  assumes "node E [str ''node'', node_script self, url] (files w) = Runs d r so se ef"
  shows
    \<open>(d = None \<or> (\<exists>n. d = Some n \<and> 60 < n) \<longrightarrow>
        run_accessibility_check self E url w =
          (Returns timeout_result,
           w\<lparr>calls := calls w @ [CheckCall url], files := ef Killed (files w),
             procs := procs w @ [([str ''node'', node_script self, url], Killed)]\<rparr>)) \<and>
     (\<forall>n. d = Some n \<and> n \<le> 60 \<longrightarrow>
        procs (snd (run_accessibility_check self E url w))
          = procs w @ [([str ''node'', node_script self, url], Exited)]) \<and>
     subscript timeout_result (str ''success'') = Inr (JBool False) \<and>
     subscript timeout_result (str ''error'') = Inr (JStr (str ''Request timed out'')) \<and>
     subscript timeout_result (str ''streamlitHtml'')
       = Inr (JStr (str ''<div style="padding: 20px; color: red;">Request timed out after 60 seconds</div>'')) \<and>
     timeout_result \<noteq> failure_result x \<and>
     subscript timeout_result (str ''error'') \<noteq> subscript (failure_result x) (str ''error'')\<close>
proof -
  have a: "d = None \<or> (\<exists>n. d = Some n \<and> 60 < n) \<longrightarrow>
        run_accessibility_check self E url w =
          (Returns timeout_result,
           w\<lparr>calls := calls w @ [CheckCall url], files := ef Killed (files w),
             procs := procs w @ [([str ''node'', node_script self, url], Killed)]\<rparr>)"
    using assms run_accessibility_check_killed by blast
  have b: "\<forall>n. d = Some n \<and> n \<le> 60 \<longrightarrow>
        procs (snd (run_accessibility_check self E url w))
          = procs w @ [([str ''node'', node_script self, url], Exited)]"
    using assms run_accessibility_check_in_time by blast
  from a b timeout_result_fields timeout_result_distinct [of x] show ?thesis by blast
qed

theorem timeout_after_budget_witness:
  "fst (run_accessibility_check StreamlitA11yIntegration stuck_env (str ''https://example.com'') world0)
     = Returns timeout_result \<and>
   procs (snd (run_accessibility_check StreamlitA11yIntegration stuck_env
                 (str ''https://example.com'') world0))
     = [([str ''node'', str ''./streamlit_a11y_checker.js'', str ''https://example.com''], Killed)] \<and>
   procs (snd (run_accessibility_check StreamlitA11yIntegration (auditor 1 [] (str ''boom''))
                 (str ''https://example.com'') world0))
     = [([str ''node'', str ''./streamlit_a11y_checker.js'', str ''https://example.com''], Exited)] \<and>
   timeout_result \<noteq> failure_result (str ''boom'')"
proof -
  have a: "node stuck_env [str ''node'', node_script StreamlitA11yIntegration, str ''https://example.com'']
             (files world0) = Runs None 0 [] [] (\<lambda>f x. x)"
    by (simp add: stuck_env_def auditor_def)
  have b: "node (auditor 1 [] (str ''boom''))
             [str ''node'', node_script StreamlitA11yIntegration, str ''https://example.com'']
             (files world0) = Runs (Some 1) 1 [] (str ''boom'') (\<lambda>f x. x)"
    by (simp add: auditor_def)
  have le: "(1::nat) \<le> 60" by simp
  from timeout_after_budget [OF a, of "str ''boom''"]
  have 1: "run_accessibility_check StreamlitA11yIntegration stuck_env (str ''https://example.com'') world0
      = (Returns timeout_result,
         world0\<lparr>calls := calls world0 @ [CheckCall (str ''https://example.com'')],
           files := (\<lambda>f x. x) Killed (files world0),
           procs := procs world0 @
             [([str ''node'', node_script StreamlitA11yIntegration, str ''https://example.com''], Killed)]\<rparr>)"
    and 2: "timeout_result \<noteq> failure_result (str ''boom'')"
    by blast+
  from timeout_after_budget [OF b, of "str ''boom''"] le
  have 3: "procs (snd (run_accessibility_check StreamlitA11yIntegration (auditor 1 [] (str ''boom''))
                 (str ''https://example.com'') world0))
     = procs world0 @
         [([str ''node'', node_script StreamlitA11yIntegration, str ''https://example.com''], Exited)]"
    by blast
  from 1 2 3 show ?thesis
    by (simp add: world0_def StreamlitA11yIntegration_def)
qed




section \<open>The calls the two pages make\<close>

lemma subprocess_run_calls: "calls (snd (subprocess_run E cmd t w)) = calls w"
  by (simp add: subprocess_run_def Let_def split: spawn.splits option.splits)

lemma named_temporary_file_calls: "calls (snd (named_temporary_file E sfx w)) = calls w"
  by (simp add: named_temporary_file_def split: sum.splits)

lemma os_unlink_calls: "calls (snd (os_unlink p w)) = calls w"
  by (simp add: os_unlink_def split: option.splits)

lemma display_calls: "calls (display e w) = calls w"
  by (simp add: display_def)

lemma run_node_axe_calls:
  "calls (snd (run_node_axe E u sl d k w)) = calls w @ [AxeCall u sl d k]"
proof -
  define w0 where "w0 = w\<lparr>calls := calls w @ [AxeCall u sl d k]\<rparr>"
  have c0: "calls w0 = calls w @ [AxeCall u sl d k]" by (simp add: w0_def)
  obtain r1 w1 where t: "named_temporary_file E (str ''.html'') w0 = (r1, w1)" by fastforce
  have c1: "calls w1 = calls w0" using named_temporary_file_calls [of E "str ''.html''" w0] t by simp
  show ?thesis
  proof (cases r1)
    case (Returns out_file)
    define cmd where "cmd = [str ''node'', str ''a11y_audit.js'', u, join (str '','') sl, d, out_file,
                         (if k then str ''true'' else str ''false'')]"
    obtain r2 w2 where s: "subprocess_run E cmd None w1 = (r2, w2)" by fastforce
    have c2: "calls w2 = calls w1" using subprocess_run_calls [of E cmd None w1] s by simp
    show ?thesis
    proof (cases r2)
      case (Returns result)
      obtain r3 w3 where ul: "os_unlink out_file w2 = (r3, w3)" by fastforce
      have c3: "calls w3 = calls w2" using os_unlink_calls [of out_file w2] ul by simp
      from t s ul \<open>r1 = Returns out_file\<close> Returns c0 c1 c2 c3 show ?thesis
        by (simp add: run_node_axe_def Let_def w0_def [symmetric] cmd_def [symmetric] display_calls
            split: outcome.splits)
    next
      case (Raises e)
      with t s \<open>r1 = Returns out_file\<close> c0 c1 c2 show ?thesis
        by (simp add: run_node_axe_def Let_def w0_def [symmetric] cmd_def [symmetric])
    next
      case Hangs
      with t s \<open>r1 = Returns out_file\<close> c0 c1 c2 show ?thesis
        by (simp add: run_node_axe_def Let_def w0_def [symmetric] cmd_def [symmetric])
    qed
  next
    case (Raises e)
    with t c0 c1 show ?thesis by (simp add: run_node_axe_def Let_def w0_def [symmetric])
  next
    case Hangs
    with t c0 c1 show ?thesis by (simp add: run_node_axe_def Let_def w0_def [symmetric])
  qed
qed


lemma page_calls:
  "calls (snd (page E i w)) = calls w \<or>
   (url_input i \<noteq> [] \<and> is_valid_url (url_input i) \<and> selected_standards i \<noteq> [] \<and> run_clicked i \<and>
    (calls (snd (page E i w))
       = calls w @ [AxeCall (url_input i) (selected_standards i) (str ''desktop'') (keyboard_testing i)] \<or>
     calls (snd (page E i w))
       = calls w @ [AxeCall (url_input i) (selected_standards i) (str ''desktop'') (keyboard_testing i),
                    AxeCall (url_input i) (selected_standards i) (str ''mobile'') (keyboard_testing i)]))"
proof (cases "url_input i \<noteq> [] \<and> is_valid_url (url_input i) \<and> selected_standards i \<noteq> [] \<and> run_clicked i")
  case False
  then show ?thesis by (auto simp: page_def Let_def display_calls)
next
  case True
  define w2 where "w2 = display (Info (str ''**Selected standards:** '' @ join (str '', '') (selected_standards i))) w"
  have c2: "calls w2 = calls w" by (simp add: w2_def display_calls)
  obtain r3 w3 where a: "run_node_axe E (url_input i) (selected_standards i) (str ''desktop'') (keyboard_testing i) w2 = (r3, w3)"
    by fastforce
  have c3: "calls w3 = calls w @ [AxeCall (url_input i) (selected_standards i) (str ''desktop'') (keyboard_testing i)]"
    using run_node_axe_calls [of E "url_input i" "selected_standards i" "str ''desktop''" "keyboard_testing i" w2] a c2
    by simp
  obtain r4 w4 where b: "run_node_axe E (url_input i) (selected_standards i) (str ''mobile'') (keyboard_testing i) w3 = (r4, w4)"
    by fastforce
  have c4: "calls w4 = calls w @ [AxeCall (url_input i) (selected_standards i) (str ''desktop'') (keyboard_testing i),
                    AxeCall (url_input i) (selected_standards i) (str ''mobile'') (keyboard_testing i)]"
    using run_node_axe_calls [of E "url_input i" "selected_standards i" "str ''mobile''" "keyboard_testing i" w3] b c3
    by simp
  from True a b c3 c4 show ?thesis
    by (simp add: page_def Let_def w2_def [symmetric] display_calls split: outcome.splits)
qed

lemma run_accessibility_check_calls:
  "calls (snd (run_accessibility_check self E u w)) = calls w @ [CheckCall u]"
proof -
  define w0 where "w0 = w\<lparr>calls := calls w @ [CheckCall u]\<rparr>"
  have c0: "calls w0 = calls w @ [CheckCall u]" by (simp add: w0_def)
  obtain r1 w1 where s: "subprocess_run E [str ''node'', node_script self, u] (Some 60) w0 = (r1, w1)"
    by fastforce
  have c1: "calls w1 = calls w0"
    using subprocess_run_calls [of E "[str ''node'', node_script self, u]" "Some 60" w0] s by simp
  from s c0 c1 show ?thesis
    by (simp add: run_accessibility_check_def Let_def w0_def [symmetric]
        split: outcome.splits sum.splits)
qed

lemma main_outcome:
  assumes "armed s" and "main E i s w = (r, s', w')"
  shows "armed s' \<and>
         (calls w' = calls w \<or> (\<exists>u. u \<noteq> [] \<and> calls w' = calls w @ [CheckCall u]))"
proof (cases "if selected_quick_url i \<noteq> []
               then (case map_of quick_urls (selected_quick_url i) of
                       None \<Rightarrow> Inl (KeyError (selected_quick_url i))
                     | Some u \<Rightarrow> Inr u)
               else Inr []")
  case (Inl e)
  with assms show ?thesis by (simp add: main_def Let_def)
next
  case (Inr default_url)
  define url where "url = (case typed_url i of None \<Rightarrow> default_url | Some t \<Rightarrow> t)"
  define s1 where "s1 = (if check_clicked i \<and> url \<noteq> [] then s\<lparr>run_test := Some True, test_url := Some url\<rparr> else s)"
  define w1 where "w1 = (if check_clicked i \<and> url = [] then display (Error (str ''Please enter a URL'')) w else w)"
  have a1: "armed s1" using assms(1) by (simp add: s1_def armed_def)
  have c1: "calls w1 = calls w" by (simp add: w1_def display_calls)
  have pair: "(if check_clicked i
                 then if url \<noteq> []
                      then (s\<lparr>run_test := Some True, test_url := Some url\<rparr>, w)
                      else (s, display (Error (str ''Please enter a URL'')) w)
                 else (s, w)) = (s1, w1)"
    by (simp add: s1_def w1_def)
  show ?thesis
  proof (cases "run_test s1 = Some True")
    case False
    with assms(2) Inr pair a1 c1 show ?thesis
      by (auto simp: main_def Let_def url_def [symmetric] display_calls)
  next
    case True
    with a1 obtain tu where tu: "test_url s1 = Some tu" "tu \<noteq> []" by (auto simp: armed_def)
    define w2 where "w2 = display (Header (str ''Testing: '' @ tu)) w1"
    obtain r3 w3 where rc: "run_accessibility_check StreamlitA11yIntegration E tu w2 = (r3, w3)"
      by fastforce
    have c3: "calls w3 = calls w @ [CheckCall tu]"
      using run_accessibility_check_calls [of StreamlitA11yIntegration E tu w2] rc c1
      by (simp add: w2_def display_calls)
    have a2: "armed (s1\<lparr>run_test := Some False\<rparr>)" by (simp add: armed_def)
    from assms(2) Inr pair True tu rc
    have "(s' = s1 \<or> s' = s1\<lparr>run_test := Some False\<rparr>) \<and> calls w' = calls w3"
      by (auto simp: main_def Let_def url_def [symmetric] w2_def [symmetric] display_calls
          split: outcome.splits sum.splits prod.splits option.splits if_splits)
    with a1 a2 c3 tu show ?thesis by auto
  qed
qed

lemma reachable_armed: "reachable s \<Longrightarrow> armed s"
proof (induction rule: reachable.induct)
  case start
  show ?case by (simp add: armed_def)
next
  case (run s E i w r s' w')
  then show ?case using main_outcome by blast
qed

section \<open>The claims about the file-mode page\<close>

text \<open>
  C2 fails on the code.  The auditor exits with code 1: \<open>run_node_axe\<close> returns the
  fallback document from its early return, and the temporary file
  \<open>/tmp/tmpk3v9qz.html\<close> it created is still there (line 24, \<open>os.unlink\<close>, is only
  reached when the auditor succeeds).
\<close>

theorem run_node_axe_failure_leaves_file:
  "fst (run_node_axe (auditor 1 [] (str ''boom'')) (str ''https://example.com'')
          [str ''WCAG 2.0A''] (str ''desktop'') False world0)
     = Returns (str ''<html><body><h1>Error running test</h1></body></html>'') \<and>
   files world0 (str ''/tmp/tmpk3v9qz.html'') = None \<and>
   files (snd (run_node_axe (auditor 1 [] (str ''boom'')) (str ''https://example.com'')
          [str ''WCAG 2.0A''] (str ''desktop'') False world0)) (str ''/tmp/tmpk3v9qz.html'')
     = Some (Text []) \<and>
   procs (snd (run_node_axe (auditor 1 [] (str ''boom'')) (str ''https://example.com'')
          [str ''WCAG 2.0A''] (str ''desktop'') False world0))
     = [([str ''node'', str ''a11y_audit.js'', str ''https://example.com'', str ''WCAG 2.0A'',
          str ''desktop'', str ''/tmp/tmpk3v9qz.html'', str ''false''], Exited)]"
  by (simp add: run_node_axe_def named_temporary_file_def subprocess_run_def auditor_def world0_def
      display_def Let_def str_def)

text \<open>
  The other path, for comparison: when the auditor exits with code 0 and has left a
  readable document in the output file, the document is returned and the file is gone.
\<close>

lemma run_node_axe_success_unlinks:
  assumes "tmp_stem E (files w) = Inr stem"
    and "node E [str ''node'', str ''a11y_audit.js'', u, join (str '','') sl, d, stem @ str ''.html'',
                 (if k then str ''true'' else str ''false'')]
           ((files w)(stem @ str ''.html'' \<mapsto> Text [])) = Runs (Some n) 0 so se ef"
    and "ef Exited ((files w)(stem @ str ''.html'' \<mapsto> Text [])) (stem @ str ''.html'') = Some (Text html)"
  shows "fst (run_node_axe E u sl d k w) = Returns html \<and>
         files (snd (run_node_axe E u sl d k w)) (stem @ str ''.html'') = None"
  using assms
  by (simp add: run_node_axe_def named_temporary_file_def subprocess_run_def Let_def read_text_def
      os_unlink_def)

lemma drop_calls: "drop (length xs) (xs @ ys) = ys"
  by simp

lemma page_new_calls:
  assumes "AxeCall u sl d k \<in> set (drop (length (calls w)) (calls (snd (page E i w))))"
  shows "u = url_input i \<and> sl = selected_standards i \<and> k = keyboard_testing i \<and>
         url_input i \<noteq> [] \<and> is_valid_url (url_input i) \<and> selected_standards i \<noteq> [] \<and>
         run_clicked i"
proof -
  from page_calls [of E i w] assms show ?thesis
    by (elim disjE conjE) auto
qed

lemma page_without_standards:
  assumes "selected_standards i = []"
  shows "calls (snd (page E i w)) = calls w \<and> procs (snd (page E i w)) = procs w \<and>
         files (snd (page E i w)) = files w"
  using assms by (simp add: page_def Let_def display_def)

text \<open>
  C8: in the file-mode page an empty selection of standards never reaches
  \<open>run_node_axe\<close>.  Every call of \<open>run_node_axe\<close> that a run of the page makes has the
  selected standards as its list, and that list is not empty.  With an empty selection
  the run makes no call, starts no process and touches no file; when the URL is
  present and valid it shows the request to select at least one standard and ends.
\<close>

theorem no_audit_without_standards:
  "(\<forall>u sl d k. AxeCall u sl d k \<in> set (drop (length (calls w)) (calls (snd (page E i w)))) \<longrightarrow>
      sl = selected_standards i \<and> sl \<noteq> []) \<and>
   (selected_standards i = [] \<longrightarrow>
      calls (snd (page E i w)) = calls w \<and> procs (snd (page E i w)) = procs w \<and>
      files (snd (page E i w)) = files w) \<and>
   (selected_standards i = [] \<and> url_input i \<noteq> [] \<and> is_valid_url (url_input i) \<longrightarrow>
      page E i w =
        (Returns (),
         display (Info (str ''Please select at least one testing standard above to run the audit.'')) w))"
proof (intro conjI allI impI)
  fix u sl d k
  assume "AxeCall u sl d k \<in> set (drop (length (calls w)) (calls (snd (page E i w))))"
  then have "sl = selected_standards i \<and> selected_standards i \<noteq> []"
    by (simp add: page_new_calls)
  then show "sl = selected_standards i" "sl \<noteq> []" by simp_all
next
  assume "selected_standards i = []"
  then show "calls (snd (page E i w)) = calls w" "procs (snd (page E i w)) = procs w"
    "files (snd (page E i w)) = files w"
    by (simp_all add: page_without_standards)
next
  assume "selected_standards i = [] \<and> url_input i \<noteq> [] \<and> is_valid_url (url_input i)"
  then show "page E i w =
        (Returns (),
         display (Info (str ''Please select at least one testing standard above to run the audit.'')) w)"
    by (simp add: page_def Let_def)
qed

lemma valid_example: "is_valid_url (str ''https://example.com'')"
  by (simp add: is_valid_url_def url_pattern_def strip_def lstrip_def rstrip_def is_space_def str_def)

lemma invalid_examples:
  "\<not> is_valid_url (str ''example.com'')" "\<not> is_valid_url (str ''ftp://example.com'')"
  by (simp_all add: is_valid_url_def url_pattern_def strip_def lstrip_def rstrip_def is_space_def
      str_def)

lemma one_standard_calls:
  "calls (snd (page (auditor 1 [] (str ''boom'')) one_standard world0))
     = [AxeCall (str ''https://example.com'') [str ''WCAG 2.0A''] (str ''desktop'') False,
        AxeCall (str ''https://example.com'') [str ''WCAG 2.0A''] (str ''mobile'') False]"
  by (simp add: page_def run_node_axe_def named_temporary_file_def subprocess_run_def auditor_def
      world0_def display_def Let_def one_standard_def selected_standards_def is_valid_url_def
      url_pattern_def strip_def lstrip_def rstrip_def is_space_def str_def)

theorem no_audit_without_standards_witness:
  "AxeCall (str ''https://example.com'') [str ''WCAG 2.0A''] (str ''mobile'') False
     \<in> set (drop (length (calls world0))
               (calls (snd (page (auditor 1 [] (str ''boom'')) one_standard world0)))) \<and>
   [str ''WCAG 2.0A''] = selected_standards one_standard \<and>
   selected_standards no_standard = [] \<and>
   calls (snd (page (auditor 1 [] (str ''boom'')) no_standard world0)) = calls world0 \<and>
   page (auditor 1 [] (str ''boom'')) no_standard world0 =
     (Returns (),
      display (Info (str ''Please select at least one testing standard above to run the audit.''))
        world0)"
proof -
  have m: "AxeCall (str ''https://example.com'') [str ''WCAG 2.0A''] (str ''mobile'') False
     \<in> set (drop (length (calls world0))
               (calls (snd (page (auditor 1 [] (str ''boom'')) one_standard world0))))"
  proof -
    have "calls world0 = []" by (simp add: world0_def)
    then show ?thesis by (simp add: one_standard_calls)
  qed
  have e: "selected_standards no_standard = []"
    by (simp add: selected_standards_def no_standard_def one_standard_def)
  have v: "url_input no_standard \<noteq> []" "is_valid_url (url_input no_standard)"
    by (simp_all add: no_standard_def one_standard_def valid_example) (simp add: str_def)
  from m e v no_audit_without_standards [of world0 "auditor 1 [] (str ''boom'')" one_standard]
    no_audit_without_standards [of world0 "auditor 1 [] (str ''boom'')" no_standard]
  show ?thesis by blast
qed

section \<open>The claim about the URL gate of the two pages\<close>

lemma main_new_checks:
  assumes "reachable s"
    and "CheckCall u \<in> set (drop (length (calls w)) (calls (snd (snd (main E j s w)))))"
  shows "u \<noteq> []"
proof -
  obtain r s' w' where m: "main E j s w = (r, s', w')" by (cases "main E j s w") auto
  from assms(1) have "armed s" by (rule reachable_armed)
  with m have "calls w' = calls w \<or> (\<exists>v. v \<noteq> [] \<and> calls w' = calls w @ [CheckCall v])"
    using main_outcome by blast
  with assms(2) m show ?thesis by auto
qed

lemma main_empty_url:
  assumes "run_test s \<noteq> Some True" "check_clicked j" "selected_quick_url j = []"
    and "typed_url j = None \<or> typed_url j = Some []"
  shows "main E j s w =
           (Returns (), s,
            display (Info (128072 # str '' Enter a URL in the sidebar and click 'Run Accessibility Check' to begin''))
              (display (Error (str ''Please enter a URL'')) w))"
  using assms by (auto simp: main_def Let_def)

lemma subprocess_run_shown: "shown (snd (subprocess_run E cmd t w)) = shown w"
  by (simp add: subprocess_run_def Let_def split: spawn.splits option.splits)

lemma run_accessibility_check_shown:
  "shown (snd (run_accessibility_check self E u w)) = shown w"
proof -
  define w0 where "w0 = w\<lparr>calls := calls w @ [CheckCall u]\<rparr>"
  have c0: "shown w0 = shown w" by (simp add: w0_def)
  obtain r1 w1 where s: "subprocess_run E [str ''node'', node_script self, u] (Some 60) w0 = (r1, w1)"
    by fastforce
  have c1: "shown w1 = shown w0"
    using subprocess_run_shown [of E "[str ''node'', node_script self, u]" "Some 60" w0] s by simp
  from s c0 c1 show ?thesis
    by (simp add: run_accessibility_check_def Let_def w0_def [symmetric]
        split: outcome.splits sum.splits)
qed

lemma main_empty_press_shown:
  assumes "check_clicked j" "selected_quick_url j = []"
    and "typed_url j = None \<or> typed_url j = Some []"
  shows "\<exists>rest. shown (snd (snd (main E j s w)))
           = shown w @ Error (str ''Please enter a URL'') # rest"
proof (cases "run_test s = Some True")
  case False
  with assms show ?thesis by (auto simp: main_def Let_def display_def)
next
  case True
  show ?thesis
  proof (cases "test_url s")
    case None
    with True assms show ?thesis by (auto simp: main_def Let_def display_def)
  next
    case (Some tu)
    define w2 where "w2 = display (Header (str ''Testing: '' @ tu)) (display (Error (str ''Please enter a URL'')) w)"
    have s2: "shown w2 = shown w @ [Error (str ''Please enter a URL''), Header (str ''Testing: '' @ tu)]"
      by (simp add: w2_def display_def)
    obtain r3 w3 where rc: "run_accessibility_check StreamlitA11yIntegration E tu w2 = (r3, w3)"
      by fastforce
    have s3: "shown w3 = shown w2"
      using run_accessibility_check_shown [of StreamlitA11yIntegration E tu w2] rc by simp
    have url: "(case typed_url j of None \<Rightarrow> [] | Some t \<Rightarrow> t) = []"
      using assms(3) by auto
    note facts = assms(1,2) url True Some rc w2_def [symmetric]
    show ?thesis
    proof (cases r3)
      case (Raises e)
      with facts s2 s3 show ?thesis by (simp add: main_def Let_def)
    next
      case Hangs
      with facts s2 s3 show ?thesis by (simp add: main_def Let_def)
    next
      case (Returns result)
      show ?thesis
      proof (cases "subscript result (str ''success'')")
        case (Inl e)
        with facts Returns s2 s3 show ?thesis by (simp add: main_def Let_def)
      next
        case (Inr ok)
        show ?thesis
        proof (cases "truthy ok")
          case True
          obtain evs eo where ss: "show_summary E result (filter_type j) = (evs, eo)" by fastforce
          with facts Returns Inr True s2 s3 show ?thesis
            by (cases eo) (simp_all add: main_def Let_def)
        next
          case False
          show ?thesis
          proof (cases "subscript result (str ''error'')")
            case (Inl e)
            with facts Returns Inr False s2 s3 show ?thesis by (simp add: main_def Let_def)
          next
            case (Inr er)
            with facts Returns \<open>subscript result (str ''success'') = Inr ok\<close> False s2 s3
            show ?thesis
              by (simp add: main_def Let_def display_def split: sum.splits)
          qed
        qed
      qed
    qed
  qed
qed

lemma page_bad_url:
  assumes "url_input i \<noteq> []" "\<not> is_valid_url (url_input i)"
  shows "page E i w =
           (Returns (),
            display (Warning (str ''Please enter a valid URL starting with http:// or https://'')) w)"
  using assms by (simp add: page_def Let_def)

lemma ftp_request_run:
  "calls (snd (snd (main boom_env ftp_request fresh_session world0)))
     = [CheckCall (str ''ftp://example.com'')] \<and>
   procs (snd (snd (main boom_env ftp_request fresh_session world0)))
     = [([str ''node'', str ''./streamlit_a11y_checker.js'', str ''ftp://example.com''], Exited)]"
  by (simp add: main_def Let_def run_accessibility_check_def subprocess_run_def boom_env_def
      auditor_def world0_def display_def StreamlitA11yIntegration_def boom_payload_def
      boom_document_def format_def ftp_request_def fresh_session_def str_def)

text \<open>
  C9, as stated, fails for the JSON-mode page.  From a fresh session, the URL
  \<open>ftp://example.com\<close> and a press of the button make \<open>main\<close> call
  \<open>run_accessibility_check\<close> with that URL, which \<open>is_valid_url\<close> rejects.
\<close>

theorem json_page_checks_any_url:
  "reachable fresh_session \<and>
   calls (snd (snd (main boom_env ftp_request fresh_session world0)))
     = [CheckCall (str ''ftp://example.com'')] \<and>
   procs (snd (snd (main boom_env ftp_request fresh_session world0)))
     = [([str ''node'', str ''./streamlit_a11y_checker.js'', str ''ftp://example.com''], Exited)] \<and>
   \<not> is_valid_url (str ''ftp://example.com'')"
proof -
  have "reachable fresh_session" unfolding fresh_session_def by (rule reachable.start)
  then show ?thesis using ftp_request_run invalid_examples(2) by simp
qed

text \<open>
  C9, amended: the file-mode page reports a URL of bad shape inline and attempts no
  audit; every call of \<open>run_node_axe\<close> it makes has the entered URL, which satisfies
  \<open>is_valid_url\<close>.  The JSON-mode page checks only that the URL is not empty: in every
  session state the page can reach, a call of \<open>run_accessibility_check\<close> it makes has a
  non-empty URL.  A press of the button with no quick URL chosen and an empty URL
  field is answered inline by \<open>Please enter a URL\<close> in every session state; when no
  test requested earlier is still pending (\<open>run_test\<close> is not true), the session
  stays as it is and the run makes no call.
\<close>

theorem url_gate_of_each_page:
  "(\<forall>u sl d k. AxeCall u sl d k \<in> set (drop (length (calls w)) (calls (snd (page E i w)))) \<longrightarrow>
      u = url_input i \<and> is_valid_url u) \<and>
   (url_input i \<noteq> [] \<and> \<not> is_valid_url (url_input i) \<longrightarrow>
      page E i w =
        (Returns (),
         display (Warning (str ''Please enter a valid URL starting with http:// or https://'')) w)) \<and>
   (reachable s \<longrightarrow>
      (\<forall>u. CheckCall u \<in> set (drop (length (calls w)) (calls (snd (snd (main E j s w))))) \<longrightarrow>
         u \<noteq> [])) \<and>
   (run_test s \<noteq> Some True \<and> check_clicked j \<and> selected_quick_url j = [] \<and>
    (typed_url j = None \<or> typed_url j = Some []) \<longrightarrow>
      main E j s w =
        (Returns (), s,
         display (Info (128072 # str '' Enter a URL in the sidebar and click 'Run Accessibility Check' to begin''))
           (display (Error (str ''Please enter a URL'')) w))) \<and>
   (check_clicked j \<and> selected_quick_url j = [] \<and>
    (typed_url j = None \<or> typed_url j = Some []) \<longrightarrow>
      (\<exists>rest. shown (snd (snd (main E j s w)))
                = shown w @ Error (str ''Please enter a URL'') # rest))"
proof (intro conjI allI impI)
  fix u sl d k
  assume "AxeCall u sl d k \<in> set (drop (length (calls w)) (calls (snd (page E i w))))"
  then have "u = url_input i \<and> is_valid_url (url_input i)" by (simp add: page_new_calls)
  then show "u = url_input i" "is_valid_url u" by simp_all
next
  assume "url_input i \<noteq> [] \<and> \<not> is_valid_url (url_input i)"
  then show "page E i w =
        (Returns (),
         display (Warning (str ''Please enter a valid URL starting with http:// or https://'')) w)"
    by (simp add: page_bad_url)
next
  fix u
  assume "reachable s"
    "CheckCall u \<in> set (drop (length (calls w)) (calls (snd (snd (main E j s w)))))"
  then show "u \<noteq> []" by (rule main_new_checks)
next
  assume "run_test s \<noteq> Some True \<and> check_clicked j \<and> selected_quick_url j = [] \<and>
    (typed_url j = None \<or> typed_url j = Some [])"
  then show "main E j s w =
        (Returns (), s,
         display (Info (128072 # str '' Enter a URL in the sidebar and click 'Run Accessibility Check' to begin''))
           (display (Error (str ''Please enter a URL'')) w))"
    by (simp add: main_empty_url)
next
  assume "check_clicked j \<and> selected_quick_url j = [] \<and>
    (typed_url j = None \<or> typed_url j = Some [])"
  then show "\<exists>rest. shown (snd (snd (main E j s w)))
                = shown w @ Error (str ''Please enter a URL'') # rest"
    by (simp add: main_empty_press_shown)
qed

theorem url_gate_of_each_page_witness:
  "AxeCall (str ''https://example.com'') [str ''WCAG 2.0A''] (str ''desktop'') False
     \<in> set (drop (length (calls world0))
               (calls (snd (page (auditor 1 [] (str ''boom'')) one_standard world0)))) \<and>
   is_valid_url (str ''https://example.com'') \<and>
   page (auditor 1 [] (str ''boom'')) bad_url world0 =
     (Returns (),
      display (Warning (str ''Please enter a valid URL starting with http:// or https://'')) world0) \<and>
   CheckCall (str ''ftp://example.com'')
     \<in> set (drop (length (calls world0))
               (calls (snd (snd (main boom_env ftp_request fresh_session world0))))) \<and>
   str ''ftp://example.com'' \<noteq> [] \<and>
   main boom_env empty_request fresh_session world0 =
     (Returns (), fresh_session,
      display (Info (128072 # str '' Enter a URL in the sidebar and click 'Run Accessibility Check' to begin''))
        (display (Error (str ''Please enter a URL'')) world0)) \<and>
   (\<exists>rest. shown (snd (snd (main boom_env empty_request fresh_session world0)))
             = shown world0 @ Error (str ''Please enter a URL'') # rest)"
proof -
  have c0: "calls world0 = []" by (simp add: world0_def)
  have a: "AxeCall (str ''https://example.com'') [str ''WCAG 2.0A''] (str ''desktop'') False
     \<in> set (drop (length (calls world0))
               (calls (snd (page (auditor 1 [] (str ''boom'')) one_standard world0))))"
    using c0 by (simp add: one_standard_calls)
  have b: "url_input bad_url \<noteq> []" "\<not> is_valid_url (url_input bad_url)"
    by (simp_all add: bad_url_def one_standard_def invalid_examples) (simp add: str_def)
  have c: "CheckCall (str ''ftp://example.com'')
     \<in> set (drop (length (calls world0))
               (calls (snd (snd (main boom_env ftp_request fresh_session world0)))))"
    using c0 ftp_request_run by simp
  have r: "reachable fresh_session" unfolding fresh_session_def by (rule reachable.start)
  have e: "run_test fresh_session \<noteq> Some True" "check_clicked empty_request"
    "selected_quick_url empty_request = []" "typed_url empty_request = None"
    by (simp_all add: fresh_session_def empty_request_def ftp_request_def)
  from a
    url_gate_of_each_page [where w = world0 and E = "auditor 1 [] (str ''boom'')" and i = one_standard]
  have 1: "is_valid_url (str ''https://example.com'')" by blast
  from b
    url_gate_of_each_page [where w = world0 and E = "auditor 1 [] (str ''boom'')" and i = bad_url]
  have 2: "page (auditor 1 [] (str ''boom'')) bad_url world0 =
     (Returns (),
      display (Warning (str ''Please enter a valid URL starting with http:// or https://'')) world0)"
    by blast
  from c r
    url_gate_of_each_page [where w = world0 and E = boom_env and s = fresh_session and j = ftp_request]
  have 3: "str ''ftp://example.com'' \<noteq> []" by blast
  from e
    url_gate_of_each_page [where w = world0 and E = boom_env and s = fresh_session and j = empty_request]
  have 4: "main boom_env empty_request fresh_session world0 =
     (Returns (), fresh_session,
      display (Info (128072 # str '' Enter a URL in the sidebar and click 'Run Accessibility Check' to begin''))
        (display (Error (str ''Please enter a URL'')) world0))"
    by blast
  from e
    url_gate_of_each_page [where w = world0 and E = boom_env and s = fresh_session and j = empty_request]
  have 5: "\<exists>rest. shown (snd (snd (main boom_env empty_request fresh_session world0)))
             = shown world0 @ Error (str ''Please enter a URL'') # rest"
    by blast
  from a c 1 2 3 4 5 show ?thesis by blast
qed

end
